theory Spec2Isabelle
  imports Main "HOL-Library.Sublist"
begin

section \<open>Python string operations used by the patch script\<close>

text \<open>
  Text is a \<^typ>\<open>string\<close>: a list of characters, each standing for one code point
  below 256 (the patched build files are ASCII). The operations below are the
  methods of Python's \<open>str\<close> that \<open>add_x86_64_support.py\<close> calls.
\<close>

text \<open>\<open>sub in s\<close>: \<open>sub\<close> occurs in \<open>s\<close> as a contiguous run of characters.\<close>

fun contains :: "string \<Rightarrow> string \<Rightarrow> bool" where
  "contains sub [] = (sub = [])"
| "contains sub (c # cs) = (prefix sub (c # cs) \<or> contains sub cs)"

text \<open>\<open>s.split(sep)\<close> for a one-character separator: never the empty list.\<close>

fun split_on :: "char \<Rightarrow> string \<Rightarrow> string list" where
  "split_on sep [] = [[]]"
| "split_on sep (c # cs) =
     (if c = sep then [] # split_on sep cs
      else (case split_on sep cs of
              [] \<Rightarrow> [[c]]
            | l # ls \<Rightarrow> (c # l) # ls))"

text \<open>\<open>sep.join(xs)\<close> for a one-character separator.\<close>

fun join_with :: "char \<Rightarrow> string list \<Rightarrow> string" where
  "join_with sep [] = []"
| "join_with sep [x] = x"
| "join_with sep (x # y # ys) = x @ sep # join_with sep (y # ys)"

text \<open>
  \<open>str.isspace\<close> on one character, for code points below 256: tab, line feed,
  vertical tab, form feed, carriage return, the separators 28 to 31, space, and the
  Latin-1 characters 133 (next line) and 160 (no-break space).
\<close>

definition is_space :: "char \<Rightarrow> bool" where
  "is_space c =
     (let n = (of_char c :: nat)
      in (9 \<le> n \<and> n \<le> 13) \<or> (28 \<le> n \<and> n \<le> 32) \<or> n = 133 \<or> n = 160)"

definition lstrip :: "string \<Rightarrow> string" where
  "lstrip s = dropWhile is_space s"

definition rstrip :: "string \<Rightarrow> string" where
  "rstrip s = rev (dropWhile is_space (rev s))"

definition strip :: "string \<Rightarrow> string" where
  "strip s = lstrip (rstrip s)"

definition startswith :: "string \<Rightarrow> string \<Rightarrow> bool" where
  "startswith s p = prefix p s"

text \<open>
  \<open>s.replace(old, new)\<close>: every occurrence of \<open>old\<close>, found from the left and
  without overlap, becomes \<open>new\<close>. For the empty \<open>old\<close> Python puts \<open>new\<close> before
  every character and at the end.
\<close>

function replace :: "string \<Rightarrow> string \<Rightarrow> string \<Rightarrow> string" where
  "replace old new s =
     (if old = [] then new @ concat (map (\<lambda>c. c # new) s)
      else (case s of
              [] \<Rightarrow> []
            | c # cs \<Rightarrow>
                if prefix old s then new @ replace old new (drop (length old) s)
                else c # replace old new cs))"
  by pat_completeness auto
termination
  by (relation "measure (\<lambda>(old, new, s). length s)") auto

declare replace.simps [simp del]

section \<open>The genrule block duplicator\<close>

text \<open>
  The loop of \<open>patch_genrule_build_files\<close> (source lines 514 to 558) over the
  lines of one file. The literals are the source's.
\<close>

definition sim_arm64_marker :: string where
  \<open>sim_arm64_marker = ''elif [ "$(TARGET_CPU)" == "ios_sim_arm64" ]; then''\<close>

definition x86_64_marker :: string where
  \<open>x86_64_marker = ''elif [ "$(TARGET_CPU)" == "ios_x86_64" ]; then''\<close>

text \<open>The test that ends a block (source line 531).\<close>

definition is_block_end :: "string \<Rightarrow> bool" where
  "is_block_end line =
     (startswith (strip line) ''elif '' \<or> startswith (strip line) ''else''
      \<or> strip line = ''fi'')"

text \<open>\<open>line[:len(line) - len(line.lstrip())]\<close> (source line 535).\<close>

definition leading_ws :: "string \<Rightarrow> string" where
  "leading_ws line = take (length line - length (lstrip line)) line"

text \<open>
  The inner \<open>while\<close> (source lines 528 to 537). The index \<open>i\<close> is the position of
  the first argument in \<open>lines\<close>: the first argument is \<open>lines[i:]\<close>. The result
  is \<open>block_lines\<close>, \<open>indent\<close>, \<open>new_lines\<close> and the lines from the index where the
  loop stopped.
\<close>

fun collect_block ::
  "string list \<Rightarrow> string list \<Rightarrow> string \<Rightarrow> string list
     \<Rightarrow> string list \<times> string \<times> string list \<times> string list" where
  "collect_block [] block_lines indent new_lines = (block_lines, indent, new_lines, [])"
| "collect_block (line # rest) block_lines indent new_lines =
     (if is_block_end line then (block_lines, indent, new_lines, line # rest)
      else collect_block rest (block_lines @ [line])
             (if indent = [] \<and> strip line \<noteq> [] then leading_ws line else indent)
             (new_lines @ [line]))"

text \<open>The \<open>for bl in block_lines\<close> loop (source lines 543 to 549), appending to \<open>x86_block\<close>.\<close>

fun rewrite_block :: "string list \<Rightarrow> string list \<Rightarrow> string list" where
  "rewrite_block [] x86_block = x86_block"
| "rewrite_block (bl # bls) x86_block =
     rewrite_block bls
       (x86_block @ [replace ''arm64'' ''x86_64'' (replace ''aarch64'' ''x86_64'' bl)])"

definition make_x86_block :: "string \<Rightarrow> string list \<Rightarrow> string list" where
  "make_x86_block indent block_lines = rewrite_block block_lines [indent @ x86_64_marker]"

text \<open>
  The outer \<open>while\<close> (source lines 519 to 555): the first argument is \<open>lines[i:]\<close>,
  the state is \<open>new_lines\<close> and \<open>modified\<close>. After a block the loop goes on at the
  index where the inner loop stopped (\<open>continue\<close>), so the block's end line is
  examined as any other line.
\<close>

function scan_lines :: "string list \<Rightarrow> string list \<Rightarrow> bool \<Rightarrow> string list \<times> bool" where
  "scan_lines [] new_lines modified = (new_lines, modified)"
| "scan_lines (line # rest) new_lines modified =
     (if contains sim_arm64_marker line then
        (case collect_block rest [] [] (new_lines @ [line]) of
           (block_lines, indent, new_lines', rest') \<Rightarrow>
             scan_lines rest' (new_lines' @ make_x86_block indent block_lines) True)
      else scan_lines rest (new_lines @ [line]) modified)"
  by pat_completeness auto
termination
proof (relation "measure (\<lambda>(ls, nl, m). length ls)")
  have len: "length (snd (snd (snd (collect_block ls b i n)))) \<le> length ls" for ls b i n
    by (induction ls arbitrary: b i n) (simp_all add: le_SucI)
  fix line :: string and rest new_lines :: "string list" and modified :: bool
    and x xa y xb ya xc yb
  assume "(xa, y) = collect_block rest [] [] (new_lines @ [line])" "(xb, ya) = y" "(xc, yb) = ya"
  then have "yb = snd (snd (snd (collect_block rest [] [] (new_lines @ [line]))))"
    by (metis snd_conv)
  then show "((yb, xc @ make_x86_block xb xa, True), line # rest, new_lines, modified)
       \<in> measure (\<lambda>(ls, nl, m). length ls)"
    using len [of rest "[]" "[]" "new_lines @ [line]"] by simp
qed auto

text \<open>
  The transformation of one file's content (source lines 511 to 558): the loop runs
  only when the marker occurs in the content, and the lines are joined again only
  when \<open>modified\<close> is set.
\<close>

definition patch_genrule_content :: "string \<Rightarrow> string \<times> bool" where
  "patch_genrule_content content =
     (if contains sim_arm64_marker content then
        (case scan_lines (split_on CHR 0x0A content) [] False of
           (new_lines, modified) \<Rightarrow>
             (if modified then join_with CHR 0x0A new_lines else content, modified))
      else (content, False))"

subsection \<open>What the duplicator is expected to produce\<close>

text \<open>
  The indentation the loop captures from a block body: the leading whitespace of the
  first body line that is not blank and is indented, empty when there is none.
\<close>

fun first_indent :: "string list \<Rightarrow> string" where
  "first_indent [] = []"
| "first_indent (l # ls) =
     (if strip l \<noteq> [] \<and> leading_ws l \<noteq> [] then leading_ws l else first_indent ls)"

text \<open>
  The blocks the linear scan finds, each given by its body. A marker line met outside
  a block opens a block; its body is the run of lines after it up to, and without, the
  next block end; the search for the next marker goes on from that block end. A line
  that holds the marker inside such a body is a body line: it opens no block of its
  own, so there can be fewer blocks than lines that hold the marker.
\<close>

function marker_blocks :: "string list \<Rightarrow> string list list" where
  "marker_blocks [] = []"
| "marker_blocks (l # ls) =
     (if contains sim_arm64_marker l
      then takeWhile (\<lambda>x. \<not> is_block_end x) ls
             # marker_blocks (dropWhile (\<lambda>x. \<not> is_block_end x) ls)
      else marker_blocks ls)"
  by pat_completeness auto
termination
  by (relation "measure length") (auto simp: length_dropWhile_le le_imp_less_Suc)

section \<open>Regular expressions of the form the script uses\<close>

text \<open>
  The patterns passed to \<open>re.sub\<close> are sequences of literal characters and greedy
  stars over a character class (\<open>\s*\<close>, \<open>[^}]*\<close>, \<open>[^\]]*\<close>), in two groups.
  A pattern is the list of its items; a match gives the text each item consumed.
\<close>

datatype rx = Lit char | Star "char \<Rightarrow> bool"

definition lits :: "string \<Rightarrow> rx list" where
  "lits s = map Lit s"

text \<open>
  A greedy star first takes as many characters as it can and gives them back one
  at a time while the rest of the pattern fails: \<open>try_down f n\<close> is the first of
  \<open>f n\<close>, \<open>f (n - 1)\<close>, \<dots>, \<open>f 0\<close> that succeeds.
\<close>

fun try_down :: "(nat \<Rightarrow> 'a option) \<Rightarrow> nat \<Rightarrow> 'a option" where
  "try_down f 0 = f 0"
| "try_down f (Suc n) = (case f (Suc n) of Some r \<Rightarrow> Some r | None \<Rightarrow> try_down f n)"

text \<open>The match of a pattern at the start of a string, as the backtracking matcher finds it.\<close>

fun rx_match :: "rx list \<Rightarrow> string \<Rightarrow> string list option" where
  "rx_match [] s = Some []"
| "rx_match (Lit c # rs) s =
     (case s of
        [] \<Rightarrow> None
      | d # t \<Rightarrow> if d = c then map_option ((#) [d]) (rx_match rs t) else None)"
| "rx_match (Star cls # rs) s =
     try_down (\<lambda>n. map_option ((#) (take n s)) (rx_match rs (drop n s)))
       (length (takeWhile cls s))"

text \<open>
  \<open>re.sub(pattern, repl, s)\<close>: the matches are searched from the left without
  overlap; each is replaced by the expansion of the template; an empty match is
  replaced too and the search moves one character on.
\<close>

function re_sub :: "rx list \<Rightarrow> (string list \<Rightarrow> string) \<Rightarrow> string \<Rightarrow> string" where
  "re_sub p repl s =
     (case rx_match p s of
        None \<Rightarrow> (case s of [] \<Rightarrow> [] | c # t \<Rightarrow> c # re_sub p repl t)
      | Some groups \<Rightarrow>
          (if concat groups = []
           then repl groups @ (case s of [] \<Rightarrow> [] | c # t \<Rightarrow> c # re_sub p repl t)
           else repl groups @ re_sub p repl (drop (length (concat groups)) s)))"
  by pat_completeness auto
termination
proof (relation "measure (\<lambda>(p, repl, s). length s)")
  have td: "try_down f n = Some r \<Longrightarrow> \<exists>k\<le>n. f k = Some r"
    for f :: "nat \<Rightarrow> string list option" and n r
    by (induction n) (auto split: option.splits intro: le_SucI)
  have pre: "rx_match p s = Some gs \<Longrightarrow> prefix (concat gs) s" for p s gs
  proof (induction p s arbitrary: gs rule: rx_match.induct)
    case (1 s)
    then show ?case by simp
  next
    case (2 c rs s)
    then show ?case by (auto split: list.splits if_splits)
  next
    case (3 cls rs s)
    from "3.prems" obtain k
      where k: "map_option ((#) (take k s)) (rx_match rs (drop k s)) = Some gs"
      using td by fastforce
    then obtain gs' where gs': "rx_match rs (drop k s) = Some gs'" "gs = take k s # gs'"
      by auto
    have "prefix (concat gs') (drop k s)"
      using "3.IH" gs'(1) by blast
    then show ?case
      unfolding gs'(2) by (metis append_take_drop_id concat.simps(2) same_prefix_prefix)
  qed
  fix p :: "rx list" and repl :: "string list \<Rightarrow> string" and s x2
  assume "rx_match p s = Some x2" "concat x2 \<noteq> []"
  then have "prefix (concat x2) s" "concat x2 \<noteq> []"
    using pre by blast+
  then have "s \<noteq> []" "0 < length (concat x2)"
    by auto
  then show "((p, repl, drop (length (concat x2)) s), p, repl, s)
      \<in> measure (\<lambda>(p, repl, s). length s)"
    by simp
qed auto

declare re_sub.simps [simp del]

text \<open>
  The template \<open>\1 ins \2\<close> for a pattern \<open>(g1)(g2)\<close> whose first group has \<open>n\<close>
  items: the text of the first group, the inserted text, the text of the second.
\<close>

definition insert_between :: "nat \<Rightarrow> string \<Rightarrow> string list \<Rightarrow> string" where
  "insert_between n ins groups = concat (take n groups) @ ins @ concat (drop n groups)"

text \<open>\<open>re.sub(r'(g1)(g2)', r'\1 ins \2', content)\<close>.\<close>

definition sub_insert :: "rx list \<Rightarrow> rx list \<Rightarrow> string \<Rightarrow> string \<Rightarrow> string" where
  "sub_insert g1 g2 ins content = re_sub (g1 @ g2) (insert_between (length g1) ins) content"

section \<open>Files, backups and output\<close>

text \<open>
  The script reads and writes files, copies them and prints. The world is the
  content of the regular files by path, the trace of the file operations done, and
  the lines printed. Paths that are present are readable and writable files; the
  formatted time \<open>datetime.now().strftime('%Y%m%d_%H%M%S')\<close> at the moment a file
  is backed up is given by \<open>clock\<close>, by file path.
\<close>

datatype event = Read string | Copy string string | Write string string

record world =
  files :: "string \<rightharpoonup> string"
  events :: "event list"
  stdout :: "string list"

datatype error = FileNotFoundError string

definition print :: "string \<Rightarrow> world \<Rightarrow> world" where
  "print line w = w\<lparr>stdout := stdout w @ [line]\<rparr>"

text \<open>\<open>with open(filepath, 'w') as f: f.write(content)\<close>.\<close>

definition write_file :: "string \<Rightarrow> string \<Rightarrow> world \<Rightarrow> world" where
  "write_file filepath content w =
     w\<lparr>files := (files w)(filepath \<mapsto> content),
       events := events w @ [Write filepath content]\<rparr>"

text \<open>\<open>backup_file\<close> (source lines 32 to 37): \<open>shutil.copy2\<close> raises when the source is missing.\<close>

definition backup_file ::
  "(string \<Rightarrow> string) \<Rightarrow> string \<Rightarrow> world \<Rightarrow> error + (string \<times> world)" where
  "backup_file clock filepath w =
     (let backup_path = filepath @ ''.backup.'' @ clock filepath
      in case files w filepath of
           None \<Rightarrow> Inl (FileNotFoundError filepath)
         | Some content \<Rightarrow>
             Inr (backup_path,
                  print (''  Backup created: '' @ backup_path)
                    (w\<lparr>files := (files w)(backup_path \<mapsto> content),
                       events := events w @ [Copy filepath backup_path]\<rparr>)))"

text \<open>
  The events that change the file system are the copy and the write. Between two
  worlds nothing is created or written when the files are the same and no such
  event has been added.
\<close>

fun is_mutation :: "event \<Rightarrow> bool" where
  "is_mutation (Read p) = False"
| "is_mutation (Copy src dst) = True"
| "is_mutation (Write p content) = True"

definition untouched :: "world \<Rightarrow> world \<Rightarrow> bool" where
  "untouched w w' =
     (files w' = files w
      \<and> filter is_mutation (events w') = filter is_mutation (events w))"

text \<open>The value a call returns, \<open>None\<close> when it ends in an exception.\<close>

definition returned :: "error + ('a \<times> world) \<Rightarrow> 'a option" where
  "returned res = (case res of Inl e \<Rightarrow> None | Inr (x, w) \<Rightarrow> Some x)"


section \<open>The seven single-file patch functions\<close>

text \<open>
  Each function prints its header, tests \<open>os.path.exists\<close>, reads the file, tests
  for its marker literal, stops in a dry run, and otherwise makes the backup,
  computes the new content and writes it. The literals are the source's.
\<close>

definition new_config_settings :: string where
  \<open>new_config_settings = concat
    [''\<newline>'',
     ''config_setting(\<newline>'',
     [CHR 0x09] @ ''name = "ios_sim_arm64",\<newline>'',
     [CHR 0x09] @ ''values = {"cpu": "ios_sim_arm64"},\<newline>'',
     '')\<newline>'',
     ''\<newline>'',
     ''config_setting(\<newline>'',
     [CHR 0x09] @ ''name = "ios_sim_x86_64",\<newline>'',
     [CHR 0x09] @ ''values = {"cpu": "ios_x86_64"},\<newline>'',
     '')\<newline>'',
     ''\<newline>'',
     ''config_setting(\<newline>'',
     [CHR 0x09] @ ''name = "ios_x86_64",\<newline>'',
     [CHR 0x09] @ ''values = {"cpu": "ios_x86_64"},\<newline>'',
     '')\<newline>'',
     ''\<newline>'',
     ''exports_files([\<newline>'',
     ''    "GenerateStrings/GenerateStrings.py",\<newline>'',
     ''])\<newline>'']\<close>


text \<open>\<open>patch_build_system_build\<close> (source lines 40 to 88): the file is written anew with \<open>new_config_settings\<close>.\<close>

definition patch_build_system_build ::
  "(string \<Rightarrow> string) \<Rightarrow> string \<Rightarrow> bool \<Rightarrow> world \<Rightarrow> error + (bool \<times> world)" where
  "patch_build_system_build clock filepath dry_run w0 =
     (let w = print (''\<newline>[1/8] Patching '' @ filepath) w0
      in case files w filepath of
           None \<Rightarrow> Inr (False, print (''  ERROR: File not found: '' @ filepath) w)
         | Some content \<Rightarrow>
             (let w = w\<lparr>events := events w @ [Read filepath]\<rparr>
              in if contains ''ios_sim_x86_64'' content
                 then Inr (True, print ''  Already patched, skipping.'' w)
                 else if dry_run
                 then Inr (True,
                   print ''  [DRY RUN] Would replace entire file with x86_64 config settings'' w)
                 else (case backup_file clock filepath w of
                         Inl e \<Rightarrow> Inl e
                       | Inr (backup_path, w) \<Rightarrow>
                           Inr (True,
                             print ''  Successfully added ios_sim_x86_64 and ios_x86_64 config settings''
                               (write_file filepath new_config_settings w)))))"

definition old_arch_specific_sources :: string where
  \<open>old_arch_specific_sources = concat
    [''arch_specific_sources = select({\<newline>'',
     ''    "@build_bazel_rules_apple//apple:ios_arm64": common_arm_specific_sources + arm64_specific_sources,\<newline>'',
     ''    "//build-system:ios_sim_arm64": common_arm_specific_sources + arm64_specific_sources,\<newline>'',
     ''})'']\<close>


definition new_arch_specific_sources :: string where
  \<open>new_arch_specific_sources = concat
    [''# x86_64 uses generic C implementations instead of NEON\<newline>'',
     ''x86_64_specific_sources = ["webrtc/" + path for path in [\<newline>'',
     ''    "common_audio/signal_processing/complex_bit_reverse.c",\<newline>'',
     ''    "common_audio/signal_processing/filter_ar_fast_q12.c",\<newline>'',
     '']]\<newline>'',
     ''\<newline>'',
     ''arch_specific_sources = select({\<newline>'',
     ''    "@build_bazel_rules_apple//apple:ios_arm64": common_arm_specific_sources + arm64_specific_sources,\<newline>'',
     ''    "//build-system:ios_sim_arm64": common_arm_specific_sources + arm64_specific_sources,\<newline>'',
     ''    "//build-system:ios_sim_x86_64": x86_64_specific_sources,\<newline>'',
     ''    "//build-system:ios_x86_64": x86_64_specific_sources,\<newline>'',
     ''    "//conditions:default": x86_64_specific_sources,\<newline>'',
     ''})'']\<close>


definition old_arch_specific_cflags :: string where
  \<open>old_arch_specific_cflags = concat
    [''arch_specific_cflags = select({\<newline>'',
     ''    "@build_bazel_rules_apple//apple:ios_arm64": common_flags + arm64_specific_flags,\<newline>'',
     ''    "//build-system:ios_sim_arm64": common_flags + arm64_specific_flags,\<newline>'',
     ''})'']\<close>


definition new_arch_specific_cflags :: string where
  \<open>new_arch_specific_cflags = concat
    [''x86_64_specific_flags = [\<newline>'',
     ''    "-DWEBRTC_ARCH_X86_64",\<newline>'',
     ''    "-DWEBRTC_ARCH_X86_FAMILY",\<newline>'',
     '']\<newline>'',
     ''\<newline>'',
     ''arch_specific_cflags = select({\<newline>'',
     ''    "@build_bazel_rules_apple//apple:ios_arm64": common_flags + arm64_specific_flags,\<newline>'',
     ''    "//build-system:ios_sim_arm64": common_flags + arm64_specific_flags,\<newline>'',
     ''    "//build-system:ios_sim_x86_64": common_flags + x86_64_specific_flags,\<newline>'',
     ''    "//build-system:ios_x86_64": common_flags + x86_64_specific_flags,\<newline>'',
     ''    "//conditions:default": common_flags + x86_64_specific_flags,\<newline>'',
     ''})'']\<close>


text \<open>\<open>patch_webrtc_build\<close> (source lines 91 to 160).\<close>

definition patch_webrtc_build ::
  "(string \<Rightarrow> string) \<Rightarrow> string \<Rightarrow> bool \<Rightarrow> world \<Rightarrow> error + (bool \<times> world)" where
  "patch_webrtc_build clock filepath dry_run w0 =
     (let w = print (''\<newline>[2/8] Patching '' @ filepath) w0
      in case files w filepath of
           None \<Rightarrow> Inr (False, print (''  ERROR: File not found: '' @ filepath) w)
         | Some content \<Rightarrow>
             (let w = w\<lparr>events := events w @ [Read filepath]\<rparr>
              in if contains ''ios_sim_x86_64'' content
                 then Inr (True, print ''  Already patched, skipping.'' w)
                 else if dry_run
                 then Inr (True,
                   print ''  [DRY RUN] Would add x86_64 support to arch_specific_sources and arch_specific_cflags'' w)
                 else (case backup_file clock filepath w of
                         Inl e \<Rightarrow> Inl e
                       | Inr (backup_path, w) \<Rightarrow>
                           Inr (True,
                             print ''  Successfully added x86_64 support''
                               (write_file filepath
                                  (replace old_arch_specific_cflags new_arch_specific_cflags
                                     (replace old_arch_specific_sources new_arch_specific_sources content))
                                  w)))))"

definition libyuv_pattern_group1 :: "rx list" where
  \<open>libyuv_pattern_group1 =
     lits ''arch_specific_cflags''
     @ [Star is_space]
     @ lits ''=''
     @ [Star is_space]
     @ lits ''select({''
     @ [Star (\<lambda>c. c \<noteq> CHR ''}'')]
     @ lits ''"//build-system:ios_sim_arm64":''
     @ [Star is_space]
     @ lits ''common_flags''
     @ [Star is_space]
     @ lits ''+''
     @ [Star is_space]
     @ lits ''arm64_specific_flags,''\<close>

definition libyuv_pattern_group2 :: "rx list" where
  \<open>libyuv_pattern_group2 = [Star is_space] @ lits ''})''\<close>


definition libyuv_inserted :: string where
  \<open>libyuv_inserted = concat
    [''\<newline>'',
     ''    "//build-system:ios_sim_x86_64": common_flags,\<newline>'',
     ''    "//build-system:ios_x86_64": common_flags,\<newline>'',
     ''    "//conditions:default": common_flags,\<newline>'']\<close>


text \<open>\<open>patch_libyuv_build\<close> (source lines 163 to 201).\<close>

definition patch_libyuv_build ::
  "(string \<Rightarrow> string) \<Rightarrow> string \<Rightarrow> bool \<Rightarrow> world \<Rightarrow> error + (bool \<times> world)" where
  "patch_libyuv_build clock filepath dry_run w0 =
     (let w = print (''\<newline>[3/8] Patching '' @ filepath) w0
      in case files w filepath of
           None \<Rightarrow> Inr (False, print (''  ERROR: File not found: '' @ filepath) w)
         | Some content \<Rightarrow>
             (let w = w\<lparr>events := events w @ [Read filepath]\<rparr>
              in if contains ''ios_sim_x86_64'' content
                 then Inr (True, print ''  Already patched, skipping.'' w)
                 else if dry_run
                 then Inr (True,
                   print ''  [DRY RUN] Would add x86_64 support to select() statements'' w)
                 else (case backup_file clock filepath w of
                         Inl e \<Rightarrow> Inl e
                       | Inr (backup_path, w) \<Rightarrow>
                           Inr (True,
                             print ''  Successfully added x86_64 support''
                               (write_file filepath
                                  (sub_insert libyuv_pattern_group1 libyuv_pattern_group2 libyuv_inserted content)
                                  w)))))"

definition openh264_sources_pattern_group1 :: "rx list" where
  \<open>openh264_sources_pattern_group1 =
     lits ''"//build-system:ios_sim_arm64":''
     @ [Star is_space]
     @ lits ''arm64_specific_sources,''\<close>

definition openh264_sources_pattern_group2 :: "rx list" where
  \<open>openh264_sources_pattern_group2 = [Star is_space] @ lits ''})''\<close>


definition openh264_copts_pattern_group1 :: "rx list" where
  \<open>openh264_copts_pattern_group1 =
     lits ''"//build-system:ios_sim_arm64":''
     @ [Star is_space]
     @ lits ''arm64_specific_copts,''\<close>

definition openh264_copts_pattern_group2 :: "rx list" where
  \<open>openh264_copts_pattern_group2 = [Star is_space] @ lits ''})''\<close>


definition openh264_textual_hdrs_pattern_group1 :: "rx list" where
  \<open>openh264_textual_hdrs_pattern_group1 =
     lits ''"//build-system:ios_sim_arm64":''
     @ [Star is_space]
     @ lits ''arm64_specific_textual_hdrs,''\<close>

definition openh264_textual_hdrs_pattern_group2 :: "rx list" where
  \<open>openh264_textual_hdrs_pattern_group2 = [Star is_space] @ lits ''})''\<close>


text \<open>The three replacement templates of \<open>patch_openh264_build\<close> insert the same text.\<close>

definition openh264_inserted :: string where
  \<open>openh264_inserted = concat
    [''\<newline>'',
     ''    "//build-system:ios_sim_x86_64": [],\<newline>'',
     ''    "//build-system:ios_x86_64": [],\<newline>'',
     ''    "//conditions:default": [],\<newline>'']\<close>


text \<open>\<open>patch_openh264_build\<close> (source lines 204 to 263).\<close>

definition patch_openh264_build ::
  "(string \<Rightarrow> string) \<Rightarrow> string \<Rightarrow> bool \<Rightarrow> world \<Rightarrow> error + (bool \<times> world)" where
  "patch_openh264_build clock filepath dry_run w0 =
     (let w = print (''\<newline>[4/8] Patching '' @ filepath) w0
      in case files w filepath of
           None \<Rightarrow> Inr (False, print (''  ERROR: File not found: '' @ filepath) w)
         | Some content \<Rightarrow>
             (let w = w\<lparr>events := events w @ [Read filepath]\<rparr>
              in if contains ''ios_sim_x86_64'' content
                 then Inr (True, print ''  Already patched, skipping.'' w)
                 else if dry_run
                 then Inr (True,
                   print ''  [DRY RUN] Would add x86_64 support to select() statements'' w)
                 else (case backup_file clock filepath w of
                         Inl e \<Rightarrow> Inl e
                       | Inr (backup_path, w) \<Rightarrow>
                           Inr (True,
                             print ''  Successfully added x86_64 support''
                               (write_file filepath
                                  (sub_insert openh264_textual_hdrs_pattern_group1 openh264_textual_hdrs_pattern_group2
                                     openh264_inserted
                                     (sub_insert openh264_copts_pattern_group1
                                        openh264_copts_pattern_group2 openh264_inserted
                                        (sub_insert openh264_sources_pattern_group1
                                           openh264_sources_pattern_group2 openh264_inserted
                                           content)))
                                  w)))))"

definition libsrtp_pattern_group1 :: "rx list" where
  \<open>libsrtp_pattern_group1 =
     lits ''"//build-system:ios_sim_arm64":''
     @ [Star is_space]
     @ lits ''common_flags''
     @ [Star is_space]
     @ lits ''+''
     @ [Star is_space]
     @ lits ''arm64_specific_flags,''\<close>

definition libsrtp_pattern_group2 :: "rx list" where
  \<open>libsrtp_pattern_group2 = [Star is_space] @ lits ''})''\<close>


definition libsrtp_inserted :: string where
  \<open>libsrtp_inserted = concat
    [''\<newline>'',
     ''    "//build-system:ios_sim_x86_64": common_flags,\<newline>'',
     ''    "//build-system:ios_x86_64": common_flags,\<newline>'',
     ''    "//conditions:default": common_flags,\<newline>'']\<close>


text \<open>\<open>patch_libsrtp_build\<close> (source lines 266 to 303).\<close>

definition patch_libsrtp_build ::
  "(string \<Rightarrow> string) \<Rightarrow> string \<Rightarrow> bool \<Rightarrow> world \<Rightarrow> error + (bool \<times> world)" where
  "patch_libsrtp_build clock filepath dry_run w0 =
     (let w = print (''\<newline>[5/8] Patching '' @ filepath) w0
      in case files w filepath of
           None \<Rightarrow> Inr (False, print (''  ERROR: File not found: '' @ filepath) w)
         | Some content \<Rightarrow>
             (let w = w\<lparr>events := events w @ [Read filepath]\<rparr>
              in if contains ''ios_sim_x86_64'' content
                 then Inr (True, print ''  Already patched, skipping.'' w)
                 else if dry_run
                 then Inr (True,
                   print ''  [DRY RUN] Would add x86_64 support to select() statements'' w)
                 else (case backup_file clock filepath w of
                         Inl e \<Rightarrow> Inl e
                       | Inr (backup_path, w) \<Rightarrow>
                           Inr (True,
                             print ''  Successfully added x86_64 support''
                               (write_file filepath
                                  (sub_insert libsrtp_pattern_group1 libsrtp_pattern_group2 libsrtp_inserted content)
                                  w)))))"

definition crc32c_pattern_group1 :: "rx list" where
  \<open>crc32c_pattern_group1 =
     lits ''"//build-system:ios_sim_arm64":''
     @ [Star is_space]
     @ lits ''[''
     @ [Star (\<lambda>c. c \<noteq> CHR '']'')]
     @ lits ''],''\<close>

definition crc32c_pattern_group2 :: "rx list" where
  \<open>crc32c_pattern_group2 = [Star is_space] @ lits ''})''\<close>


definition crc32c_inserted :: string where
  \<open>crc32c_inserted = concat
    [''\<newline>'',
     ''    "//build-system:ios_sim_x86_64": [],\<newline>'',
     ''    "//build-system:ios_x86_64": [],\<newline>'',
     ''    "//conditions:default": [],\<newline>'']\<close>


text \<open>\<open>patch_crc32c_build\<close> (source lines 306 to 344).\<close>

definition patch_crc32c_build ::
  "(string \<Rightarrow> string) \<Rightarrow> string \<Rightarrow> bool \<Rightarrow> world \<Rightarrow> error + (bool \<times> world)" where
  "patch_crc32c_build clock filepath dry_run w0 =
     (let w = print (''\<newline>[6/8] Patching '' @ filepath) w0
      in case files w filepath of
           None \<Rightarrow> Inr (False, print (''  ERROR: File not found: '' @ filepath) w)
         | Some content \<Rightarrow>
             (let w = w\<lparr>events := events w @ [Read filepath]\<rparr>
              in if contains ''ios_sim_x86_64'' content
                 then Inr (True, print ''  Already patched, skipping.'' w)
                 else if dry_run
                 then Inr (True,
                   print ''  [DRY RUN] Would add x86_64 support to select() statements'' w)
                 else (case backup_file clock filepath w of
                         Inl e \<Rightarrow> Inl e
                       | Inr (backup_path, w) \<Rightarrow>
                           Inr (True,
                             print ''  Successfully added x86_64 support''
                               (write_file filepath
                                  (sub_insert crc32c_pattern_group1 crc32c_pattern_group2 crc32c_inserted content)
                                  w)))))"

definition old_release_arm64 :: string where
  \<open>old_release_arm64 = concat
    [''        elif configuration == 'release_arm64':\<newline>'',
     ''            self.configuration_args = [\<newline>'',
     ''                # bazel optimized build configuration\<newline>'',
     ''                '-c', 'opt',\<newline>'',
     ''\<newline>'',
     ''                # Build single-architecture binaries. It is almost 2 times faster is 32-bit support is not required.\<newline>'',
     ''                '--ios_multi_cpus=arm64',\<newline>'',
     ''\<newline>'',
     ''                # Always build universal Watch binaries.\<newline>'',
     ''                '--watchos_cpus=arm64_32',\<newline>'',
     ''\<newline>'',
     ''                # Generate DSYM files when building.\<newline>'',
     ''                '--apple_generate_dsym',\<newline>'',
     ''\<newline>'',
     ''                # Require DSYM files as build output.\<newline>'',
     ''                '--output_groups=+dsyms',\<newline>'',
     ''            ] + self.common_release_args\<newline>'',
     ''        else:\<newline>'',
     ''            raise Exception('Unknown configuration {}'.format(configuration))'']\<close>


definition new_configurations :: string where
  \<open>new_configurations = concat
    [''        elif configuration == 'release_arm64':\<newline>'',
     ''            self.configuration_args = [\<newline>'',
     ''                # bazel optimized build configuration\<newline>'',
     ''                '-c', 'opt',\<newline>'',
     ''\<newline>'',
     ''                # Build single-architecture binaries. It is almost 2 times faster is 32-bit support is not required.\<newline>'',
     ''                '--ios_multi_cpus=arm64',\<newline>'',
     ''\<newline>'',
     ''                # Always build universal Watch binaries.\<newline>'',
     ''                '--watchos_cpus=arm64_32',\<newline>'',
     ''\<newline>'',
     ''                # Generate DSYM files when building.\<newline>'',
     ''                '--apple_generate_dsym',\<newline>'',
     ''\<newline>'',
     ''                # Require DSYM files as build output.\<newline>'',
     ''                '--output_groups=+dsyms',\<newline>'',
     ''            ] + self.common_release_args\<newline>'',
     ''        elif configuration == 'debug_sim_x86_64':\<newline>'',
     ''            self.configuration_args = [\<newline>'',
     ''                # bazel debug build configuration\<newline>'',
     ''                '-c', 'dbg',\<newline>'',
     ''\<newline>'',
     ''                # Build for x86_64 simulator (Intel Macs)\<newline>'',
     ''                '--ios_multi_cpus=x86_64',\<newline>'',
     ''\<newline>'',
     ''                # Always build universal Watch binaries.\<newline>'',
     ''                '--watchos_cpus=arm64_32'' @ [CHR 0x27] @ ''\<newline>'',
     ''            ] + self.common_debug_args\<newline>'',
     ''        elif configuration == 'release_sim_x86_64':\<newline>'',
     ''            self.configuration_args = [\<newline>'',
     ''                # bazel optimized build configuration\<newline>'',
     ''                '-c', 'opt',\<newline>'',
     ''\<newline>'',
     ''                # Build for x86_64 simulator (Intel Macs)\<newline>'',
     ''                '--ios_multi_cpus=x86_64',\<newline>'',
     ''\<newline>'',
     ''                # Always build universal Watch binaries.\<newline>'',
     ''                '--watchos_cpus=arm64_32'' @ [CHR 0x27] @ ''\<newline>'',
     ''            ] + self.common_release_args\<newline>'',
     ''        else:\<newline>'',
     ''            raise Exception('Unknown configuration {}'.format(configuration))'']\<close>


definition old_choices :: string where
  \<open>old_choices = concat
    [''        choices=[\<newline>'',
     ''            'debug_arm64',\<newline>'',
     ''            'debug_sim_arm64',\<newline>'',
     ''            'release_sim_arm64',\<newline>'',
     ''            'release_arm64',\<newline>'',
     ''        ],\<newline>'',
     ''        required=True,\<newline>'',
     ''        help='Build configuration'' @ [CHR 0x27]]\<close>


definition new_choices :: string where
  \<open>new_choices = concat
    [''        choices=[\<newline>'',
     ''            'debug_arm64',\<newline>'',
     ''            'debug_sim_arm64',\<newline>'',
     ''            'release_sim_arm64',\<newline>'',
     ''            'release_arm64',\<newline>'',
     ''            'debug_sim_x86_64',\<newline>'',
     ''            'release_sim_x86_64',\<newline>'',
     ''        ],\<newline>'',
     ''        required=True,\<newline>'',
     ''        help='Build configuration'' @ [CHR 0x27]]\<close>


text \<open>\<open>patch_make_py\<close> (source lines 347 to 461).\<close>

definition patch_make_py ::
  "(string \<Rightarrow> string) \<Rightarrow> string \<Rightarrow> bool \<Rightarrow> world \<Rightarrow> error + (bool \<times> world)" where
  "patch_make_py clock filepath dry_run w0 =
     (let w = print (''\<newline>[7/8] Patching '' @ filepath) w0
      in case files w filepath of
           None \<Rightarrow> Inr (False, print (''  ERROR: File not found: '' @ filepath) w)
         | Some content \<Rightarrow>
             (let w = w\<lparr>events := events w @ [Read filepath]\<rparr>
              in if contains ''debug_sim_x86_64'' content
                 then Inr (True, print ''  Already patched, skipping.'' w)
                 else if dry_run
                 then Inr (True,
                   print ''  [DRY RUN] Would add debug_sim_x86_64 and release_sim_x86_64 configurations'' w)
                 else (case backup_file clock filepath w of
                         Inl e \<Rightarrow> Inl e
                       | Inr (backup_path, w) \<Rightarrow>
                           Inr (True,
                             print ''  Successfully added debug_sim_x86_64 and release_sim_x86_64 configurations''
                               (write_file filepath
                                  (replace old_choices new_choices
                                     (replace old_release_arm64 new_configurations content))
                                  w)))))"

section \<open>The genrule pass\<close>

definition genrule_files :: "string list" where
  "genrule_files =
     [''submodules/ffmpeg/BUILD'',
      ''third-party/opus/BUILD'',
      ''third-party/libjxl/BUILD'',
      ''third-party/webp/BUILD'',
      ''third-party/td/BUILD'',
      ''third-party/libvpx/BUILD'',
      ''third-party/dav1d/BUILD'',
      ''third-party/mozjpeg/BUILD'']"

text \<open>
  The body of the \<open>for filepath in genrule_files\<close> loop (source lines 482 to 567),
  from \<open>patched_count\<close> and the world to the new count and world. The backup and the
  write are outside the \<open>if\<close> on the marker and on \<open>modified\<close>.
\<close>

definition patch_genrule_file ::
  "(string \<Rightarrow> string) \<Rightarrow> bool \<Rightarrow> string \<Rightarrow> nat \<times> world \<Rightarrow> error + (nat \<times> world)" where
  "patch_genrule_file clock dry_run filepath st =
     (case st of (patched_count, w) \<Rightarrow>
        (case files w filepath of
           None \<Rightarrow> Inr (patched_count, print (''  WARNING: File not found: '' @ filepath) w)
         | Some content \<Rightarrow>
             (let w = w\<lparr>events := events w @ [Read filepath]\<rparr>
              in if contains ''ios_x86_64'' content
                 then Inr (patched_count,
                   print (''  '' @ filepath @ '': Already patched, skipping.'') w)
                 else if dry_run
                 then Inr (patched_count + 1, print (''  [DRY RUN] Would patch '' @ filepath) w)
                 else (case backup_file clock filepath w of
                         Inl e \<Rightarrow> Inl e
                       | Inr (backup_path, w) \<Rightarrow>
                           (case patch_genrule_content content of
                              (content', modified) \<Rightarrow>
                                (let w = write_file filepath content' w
                                 in if modified
                                    then Inr (patched_count + 1,
                                      print (''  '' @ filepath @ '': Successfully patched'') w)
                                    else Inr (patched_count,
                                      print (''  '' @ filepath
                                               @ '': No changes needed or pattern not found'')
                                        w)))))))"

text \<open>The \<open>for\<close> loop over the files.\<close>

fun genrule_loop ::
  "(string \<Rightarrow> string) \<Rightarrow> bool \<Rightarrow> string list \<Rightarrow> nat \<times> world \<Rightarrow> error + (nat \<times> world)" where
  "genrule_loop clock dry_run [] st = Inr st"
| "genrule_loop clock dry_run (filepath # rest) st =
     (case patch_genrule_file clock dry_run filepath st of
        Inl e \<Rightarrow> Inl e
      | Inr st' \<Rightarrow> genrule_loop clock dry_run rest st')"

text \<open>\<open>patch_genrule_build_files\<close> (source lines 464 to 569): the result is \<open>patched_count > 0\<close>.\<close>

definition patch_genrule_build_files ::
  "(string \<Rightarrow> string) \<Rightarrow> bool \<Rightarrow> world \<Rightarrow> error + (bool \<times> world)" where
  "patch_genrule_build_files clock dry_run w0 =
     (let w = print ''\<newline>[8/8] Patching genrule BUILD files (ffmpeg, opus, libvpx, etc.)'' w0
      in case genrule_loop clock dry_run genrule_files (0, w) of
           Inl e \<Rightarrow> Inl e
         | Inr (patched_count, w) \<Rightarrow> Inr (patched_count > 0, w))"

section \<open>The orchestrator\<close>

text \<open>\<open>success &= f(path, args.dry_run)\<close>: the step runs whatever \<open>success\<close> is.\<close>

definition and_step ::
  "(string \<Rightarrow> bool \<Rightarrow> world \<Rightarrow> error + (bool \<times> world)) \<Rightarrow> string \<Rightarrow> bool
     \<Rightarrow> error + (bool \<times> world) \<Rightarrow> error + (bool \<times> world)" where
  "and_step f filepath dry_run st =
     (case st of
        Inl e \<Rightarrow> Inl e
      | Inr (success, w) \<Rightarrow>
          (case f filepath dry_run w of
             Inl e \<Rightarrow> Inl e
           | Inr (r, w') \<Rightarrow> Inr (success \<and> r, w')))"




section \<open>Properties of the block duplicator\<close>

subsection \<open>The loops in closed form\<close>

lemma collect_block_eq:
  "collect_block ls b i n =
     (b @ takeWhile (\<lambda>x. \<not> is_block_end x) ls,
      (if i = [] then first_indent (takeWhile (\<lambda>x. \<not> is_block_end x) ls) else i),
      n @ takeWhile (\<lambda>x. \<not> is_block_end x) ls,
      dropWhile (\<lambda>x. \<not> is_block_end x) ls)"
  by (induction ls arbitrary: b i n) auto

lemma rewrite_block_eq:
  "rewrite_block bls acc =
     acc @ map (\<lambda>bl. replace ''arm64'' ''x86_64'' (replace ''aarch64'' ''x86_64'' bl)) bls"
  by (induction bls arbitrary: acc) auto

lemma make_x86_block_eq:
  "make_x86_block indent bls =
     (indent @ x86_64_marker)
       # map (\<lambda>bl. replace ''arm64'' ''x86_64'' (replace ''aarch64'' ''x86_64'' bl)) bls"
  by (simp add: make_x86_block_def rewrite_block_eq)


lemma scan_lines_marker:
  "contains sim_arm64_marker line \<Longrightarrow>
   scan_lines (line # rest) nl m =
     scan_lines (dropWhile (\<lambda>x. \<not> is_block_end x) rest)
       (nl @ line # takeWhile (\<lambda>x. \<not> is_block_end x) rest
          @ make_x86_block (first_indent (takeWhile (\<lambda>x. \<not> is_block_end x) rest))
              (takeWhile (\<lambda>x. \<not> is_block_end x) rest)) True"
  by (simp add: collect_block_eq)

lemma scan_lines_other:
  "\<not> contains sim_arm64_marker line \<Longrightarrow>
   scan_lines (line # rest) nl m = scan_lines rest (nl @ [line]) m"
  by simp

lemma scan_lines_acc:
  "scan_lines ls nl m = (nl @ fst (scan_lines ls [] False), m \<or> snd (scan_lines ls [] False))"
proof (induction ls arbitrary: nl m rule: length_induct)
  case (1 ls)
  show ?case
  proof (cases ls)
    case Nil
    then show ?thesis by simp
  next
    case (Cons line rest)
    show ?thesis
    proof (cases "contains sim_arm64_marker line")
      case True
      let ?b = "takeWhile (\<lambda>x. \<not> is_block_end x) rest"
      let ?r = "dropWhile (\<lambda>x. \<not> is_block_end x) rest"
      let ?x = "line # ?b @ make_x86_block (first_indent ?b) ?b"
      have len: "length ?r < length ls"
        unfolding Cons using length_dropWhile_le [of "\<lambda>x. \<not> is_block_end x" rest] by simp
      have ih: "scan_lines ?r nl' m' =
          (nl' @ fst (scan_lines ?r [] False), m' \<or> snd (scan_lines ?r [] False))" for nl' m'
        using "1.IH" [rule_format, OF len] .
      have l: "scan_lines ls nl m = scan_lines ?r (nl @ ?x) True"
        unfolding Cons by (rule scan_lines_marker [OF True])
      have r: "scan_lines ls [] False = scan_lines ?r ?x True"
        unfolding Cons using scan_lines_marker [OF True, of rest "[]" False] by simp
      show ?thesis
        unfolding l r by (simp add: ih [of "nl @ ?x" True] ih [of ?x True])
    next
      case False
      have len: "length rest < length ls"
        unfolding Cons by simp
      have ih: "scan_lines rest nl' m' =
          (nl' @ fst (scan_lines rest [] False), m' \<or> snd (scan_lines rest [] False))" for nl' m'
        using "1.IH" [rule_format, OF len] .
      have l: "scan_lines ls nl m = scan_lines rest (nl @ [line]) m"
        unfolding Cons by (rule scan_lines_other [OF False])
      have r: "scan_lines ls [] False = scan_lines rest [line] False"
        unfolding Cons using scan_lines_other [OF False, of rest "[]" False] by simp
      show ?thesis
        unfolding l r by (simp add: ih [of "nl @ [line]" m] ih [of "[line]" False])
    qed
  qed
qed

lemma scan_lines_no_marker:
  "\<forall>l\<in>set pre. \<not> contains sim_arm64_marker l \<Longrightarrow>
   scan_lines (pre @ ls) nl m = scan_lines ls (nl @ pre) m"
  by (induction pre arbitrary: nl) simp_all

lemma takeWhile_body:
  "\<forall>l\<in>set body. \<not> is_block_end l \<Longrightarrow> rest = [] \<or> is_block_end (hd rest) \<Longrightarrow>
   takeWhile (\<lambda>x. \<not> is_block_end x) (body @ rest) = body"
  by (cases rest) (simp_all add: takeWhile_append2)

lemma dropWhile_body:
  "\<forall>l\<in>set body. \<not> is_block_end l \<Longrightarrow> rest = [] \<or> is_block_end (hd rest) \<Longrightarrow>
   dropWhile (\<lambda>x. \<not> is_block_end x) (body @ rest) = rest"
  by (cases rest) (simp_all add: dropWhile_append2)

lemma scan_lines_block:
  assumes "\<forall>l\<in>set pre. \<not> contains sim_arm64_marker l"
    and "contains sim_arm64_marker m"
    and "\<forall>l\<in>set body. \<not> is_block_end l"
    and "rest = [] \<or> is_block_end (hd rest)"
  shows "scan_lines (pre @ m # body @ rest) [] False =
     (pre @ m # body @ make_x86_block (first_indent body) body @ fst (scan_lines rest [] False),
      True)"
  unfolding scan_lines_no_marker [OF assms(1)] scan_lines_marker [OF assms(2)]
    takeWhile_body [OF assms(3,4)] dropWhile_body [OF assms(3,4)]
  by (subst scan_lines_acc) simp

lemma scan_lines_hd: "ls \<noteq> [] \<Longrightarrow> hd (fst (scan_lines ls [] False)) = hd ls"
proof (cases ls)
  case Nil
  assume "ls \<noteq> []"
  with Nil show ?thesis by simp
next
  case (Cons line rest)
  show ?thesis
  proof (cases "contains sim_arm64_marker line")
    case True
    show ?thesis
      unfolding Cons scan_lines_marker [OF True] by (subst scan_lines_acc) simp
  next
    case False
    show ?thesis
      unfolding Cons scan_lines_other [OF False] by (subst scan_lines_acc) simp
  qed
qed


lemma scan_lines_subseq: "subseq ls (fst (scan_lines ls [] False))"
proof (induction ls rule: length_induct)
  case (1 ls)
  show ?case
  proof (cases ls)
    case Nil
    then show ?thesis by simp
  next
    case (Cons line rest)
    let ?b = "takeWhile (\<lambda>x. \<not> is_block_end x) rest"
    let ?r = "dropWhile (\<lambda>x. \<not> is_block_end x) rest"
    let ?x = "line # ?b @ make_x86_block (first_indent ?b) ?b"
    show ?thesis
    proof (cases "contains sim_arm64_marker line")
      case True
      have len: "length ?r < length ls"
        unfolding Cons using length_dropWhile_le [of "\<lambda>x. \<not> is_block_end x" rest] by simp
      have ih: "subseq ?r (fst (scan_lines ?r [] False))"
        using "1.IH" [rule_format, OF len] .
      have r: "scan_lines ls [] False = scan_lines ?r ?x True"
        unfolding Cons using scan_lines_marker [OF True, of rest "[]" False] by simp
      have "subseq (?b @ ?r) (?b @ make_x86_block (first_indent ?b) ?b @ fst (scan_lines ?r [] False))"
        by (rule list_emb_append_mono [OF subseq_order.order_refl list_emb_append2 [OF ih]])
      then have "subseq (line # rest) (?x @ fst (scan_lines ?r [] False))"
        by simp
      then show ?thesis
        unfolding r by (subst scan_lines_acc) (simp add: Cons)
    next
      case False
      have len: "length rest < length ls"
        unfolding Cons by simp
      have ih: "subseq rest (fst (scan_lines rest [] False))"
        using "1.IH" [rule_format, OF len] .
      have r: "scan_lines ls [] False = scan_lines rest [line] False"
        unfolding Cons using scan_lines_other [OF False, of rest "[]" False] by simp
      show ?thesis
        unfolding r by (subst scan_lines_acc) (simp add: ih Cons)
    qed
  qed
qed

lemma scan_lines_length:
  "length (fst (scan_lines ls [] False)) =
     length ls + sum_list (map (\<lambda>b. Suc (length b)) (marker_blocks ls))"
proof (induction ls rule: length_induct)
  case (1 ls)
  show ?case
  proof (cases ls)
    case Nil
    then show ?thesis by simp
  next
    case (Cons line rest)
    let ?b = "takeWhile (\<lambda>x. \<not> is_block_end x) rest"
    let ?r = "dropWhile (\<lambda>x. \<not> is_block_end x) rest"
    let ?x = "line # ?b @ make_x86_block (first_indent ?b) ?b"
    show ?thesis
    proof (cases "contains sim_arm64_marker line")
      case True
      have len: "length ?r < length ls"
        unfolding Cons using length_dropWhile_le [of "\<lambda>x. \<not> is_block_end x" rest] by simp
      have ih: "length (fst (scan_lines ?r [] False)) =
          length ?r + sum_list (map (\<lambda>b. Suc (length b)) (marker_blocks ?r))"
        using "1.IH" [rule_format, OF len] .
      have r: "scan_lines ls [] False = scan_lines ?r ?x True"
        unfolding Cons using scan_lines_marker [OF True, of rest "[]" False] by simp
      have split: "length ?b + length ?r = length rest"
        by (metis length_append takeWhile_dropWhile_id)
      have mb: "marker_blocks ls = ?b # marker_blocks ?r"
        unfolding Cons using True by simp
      have "length (fst (scan_lines ls [] False)) = length ?x + length (fst (scan_lines ?r [] False))"
        unfolding r by (subst scan_lines_acc) simp
      also have "\<dots> = Suc (length ?b + Suc (length ?b)) + (length ?r
          + sum_list (map (\<lambda>b. Suc (length b)) (marker_blocks ?r)))"
        unfolding ih by (simp add: make_x86_block_eq)
      also have "\<dots> = length ls + sum_list (map (\<lambda>b. Suc (length b)) (marker_blocks ls))"
        unfolding mb using split by (simp add: Cons)
      finally show ?thesis .
    next
      case False
      have len: "length rest < length ls"
        unfolding Cons by simp
      have ih: "length (fst (scan_lines rest [] False)) =
          length rest + sum_list (map (\<lambda>b. Suc (length b)) (marker_blocks rest))"
        using "1.IH" [rule_format, OF len] .
      have r: "scan_lines ls [] False = scan_lines rest [line] False"
        unfolding Cons using scan_lines_other [OF False, of rest "[]" False] by simp
      have mb: "marker_blocks ls = marker_blocks rest"
        unfolding Cons using False by simp
      show ?thesis
        unfolding r mb by (subst scan_lines_acc) (simp add: ih Cons)
    qed
  qed
qed


subsection \<open>Claims about the duplicated block\<close>

text \<open>
  Claim C1, as stated, fails. A line that holds the marker but does not end a block
  (here a comment that quotes it) is taken into the body of the block opened before
  it. The input below has two lines with the marker; the output has one duplicated
  block, inserted after the body of the first, and is three lines longer. Nothing is
  inserted for the second marker line: it is copied and, in the duplicate, rewritten
  as a body line.
\<close>

theorem marker_line_in_body_opens_no_block:
  \<open>contains sim_arm64_marker sim_arm64_marker
   \<and> contains sim_arm64_marker (''# see '' @ sim_arm64_marker)
   \<and> fst (scan_lines [sim_arm64_marker, ''# see '' @ sim_arm64_marker, ''x'', ''fi''] [] False)
       = [sim_arm64_marker, ''# see '' @ sim_arm64_marker, ''x'',
          x86_64_marker, ''# see elif [ "$(TARGET_CPU)" == "ios_sim_x86_64" ]; then'', ''x'',
          ''fi'']
   \<and> length (filter (contains sim_arm64_marker)
         [sim_arm64_marker, ''# see '' @ sim_arm64_marker, ''x'', ''fi'']) = 2
   \<and> length (filter (contains x86_64_marker)
         (fst (scan_lines [sim_arm64_marker, ''# see '' @ sim_arm64_marker, ''x'', ''fi'']
            [] False))) = 1
   \<and> marker_blocks [sim_arm64_marker, ''# see '' @ sim_arm64_marker, ''x'', ''fi'']
       = [[''# see '' @ sim_arm64_marker, ''x'']]\<close>
  by code_simp

text \<open>
  Claim C1, amended: the blocks are those the linear scan finds, not every line with
  the marker. Take any file whose lines are \<open>pre @ m # body @ rest\<close>, where no line
  of \<open>pre\<close> holds the marker, \<open>m\<close> holds it, no line of \<open>body\<close> ends a block and
  \<open>rest\<close> is empty or starts with a block end. The output is the same lines with the
  duplicated block put between the last body line and \<open>rest\<close>; what follows is the
  output for \<open>rest\<close>, which starts with the block end itself. The duplicated block
  has one line more than the body (its new marker line). For every line sequence, the
  input lines occur in the output unchanged and in their order, and the output is
  longer than the input by one plus the body length for each block the scan finds.
\<close>

theorem duplicate_inserted_after_block:
  assumes "\<forall>l\<in>set pre. \<not> contains sim_arm64_marker l"
    and "contains sim_arm64_marker m"
    and "\<forall>l\<in>set body. \<not> is_block_end l"
    and "rest = [] \<or> is_block_end (hd rest)"
  shows "fst (scan_lines (pre @ m # body @ rest) [] False) =
           pre @ m # body @ make_x86_block (first_indent body) body
             @ fst (scan_lines rest [] False)
         \<and> length (make_x86_block (first_indent body) body) = Suc (length body)
         \<and> (rest \<noteq> [] \<longrightarrow> hd (fst (scan_lines rest [] False)) = hd rest)
         \<and> subseq lines (fst (scan_lines lines [] False))
         \<and> length (fst (scan_lines lines [] False)) =
             length lines + sum_list (map (\<lambda>b. Suc (length b)) (marker_blocks lines))"
  using scan_lines_block [OF assms] scan_lines_subseq [of lines] scan_lines_length [of lines]
    scan_lines_hd [of rest]
  by (simp add: make_x86_block_eq)

theorem duplicate_inserted_after_block_witness:
  "\<not> contains sim_arm64_marker ''x''
   \<and> contains sim_arm64_marker (''  '' @ sim_arm64_marker)
   \<and> \<not> is_block_end ''    a: arm64_flag''
   \<and> is_block_end ''  fi''
   \<and> fst (scan_lines ([''x''] @ (''  '' @ sim_arm64_marker) # [''    a: arm64_flag'']
             @ [''  fi'', ''y'']) [] False) =
       [''x'', ''  '' @ sim_arm64_marker, ''    a: arm64_flag'',
        ''    '' @ x86_64_marker, ''    a: x86_64_flag'', ''  fi'', ''y'']
   \<and> length (fst (scan_lines
          [''x'', ''  '' @ sim_arm64_marker, ''    a: arm64_flag'', ''  fi'', ''y''] [] False)) =
       length [''x'', ''  '' @ sim_arm64_marker, ''    a: arm64_flag'', ''  fi'', ''y'']
         + sum_list (map (\<lambda>b. Suc (length b)) (marker_blocks
             [''x'', ''  '' @ sim_arm64_marker, ''    a: arm64_flag'', ''  fi'', ''y'']))"
proof -
  have hs: "\<not> contains sim_arm64_marker ''x''
   \<and> contains sim_arm64_marker (''  '' @ sim_arm64_marker)
   \<and> \<not> is_block_end ''    a: arm64_flag''
   \<and> is_block_end ''  fi''"
    by code_simp
  have h1: "\<forall>l\<in>set [''x'']. \<not> contains sim_arm64_marker l"
    by code_simp
  have h2: "contains sim_arm64_marker (''  '' @ sim_arm64_marker)"
    by code_simp
  have h3: "\<forall>l\<in>set [''    a: arm64_flag'']. \<not> is_block_end l"
    by code_simp
  have h4: "[''  fi'', ''y''] = [] \<or> is_block_end (hd [''  fi'', ''y''])"
    by code_simp
  have tail: "fst (scan_lines [''  fi'', ''y''] [] False) = [''  fi'', ''y'']"
    by code_simp
  have dup: "make_x86_block (first_indent [''    a: arm64_flag'']) [''    a: arm64_flag''] =
      [''    '' @ x86_64_marker, ''    a: x86_64_flag'']"
    by code_simp
  note inst = duplicate_inserted_after_block [OF h1 h2 h3 h4, of "[''x'', ''  '' @ sim_arm64_marker, ''    a: arm64_flag'', ''  fi'', ''y'']"]
  have out: "fst (scan_lines ([''x''] @ (''  '' @ sim_arm64_marker) # [''    a: arm64_flag'']
             @ [''  fi'', ''y'']) [] False) =
       [''x'', ''  '' @ sim_arm64_marker, ''    a: arm64_flag'',
        ''    '' @ x86_64_marker, ''    a: x86_64_flag'', ''  fi'', ''y'']"
    unfolding inst [THEN conjunct1] tail dup by (simp only: append.simps)
  show ?thesis
    using hs out inst by blast
qed

text \<open>
  Claim C2, as stated, fails. The new marker line is not the matched line with its
  token replaced: the matched line below is indented by two spaces and ends in a
  comment, the emitted line is indented by the six spaces of the body line and has
  no comment.
\<close>

theorem new_marker_not_substituted_line:
  \<open>fst (scan_lines [''  '' @ sim_arm64_marker @ '' # sim'', ''      x'', ''  fi''] [] False) ! 2
     = ''      elif [ "$(TARGET_CPU)" == "ios_x86_64" ]; then''
   \<and> replace ''ios_sim_arm64'' ''ios_x86_64'' (''  '' @ sim_arm64_marker @ '' # sim'')
     = ''  elif [ "$(TARGET_CPU)" == "ios_x86_64" ]; then # sim''
   \<and> fst (scan_lines [''  '' @ sim_arm64_marker @ '' # sim'', ''      x'', ''  fi''] [] False) ! 2
     \<noteq> replace ''ios_sim_arm64'' ''ios_x86_64'' (''  '' @ sim_arm64_marker @ '' # sim'')\<close>
  by code_simp

text \<open>
  Claim C2, amended. The new marker line is the fixed text
  \<open>elif [ "$(TARGET_CPU)" == "ios_x86_64" ]; then\<close>, which is the marker literal
  with \<open>ios_sim_arm64\<close> replaced by \<open>ios_x86_64\<close>, after the indentation captured
  from the block body (the leading whitespace of the first body line that is not
  blank and is indented, empty when there is none). It comes right after the last
  body line. Nothing of the matched line itself is carried over.
\<close>

theorem new_marker_is_indent_and_literal:
  assumes "\<forall>l\<in>set pre. \<not> contains sim_arm64_marker l"
    and "contains sim_arm64_marker m"
    and "\<forall>l\<in>set body. \<not> is_block_end l"
    and "rest = [] \<or> is_block_end (hd rest)"
  shows "fst (scan_lines (pre @ m # body @ rest) [] False) ! (length pre + length body + 1)
           = first_indent body @ x86_64_marker
         \<and> x86_64_marker = replace ''ios_sim_arm64'' ''ios_x86_64'' sim_arm64_marker"
proof -
  have "fst (scan_lines (pre @ m # body @ rest) [] False) =
      (pre @ m # body) @ (first_indent body @ x86_64_marker)
         # (map (\<lambda>bl. replace ''arm64'' ''x86_64'' (replace ''aarch64'' ''x86_64'' bl)) body
            @ fst (scan_lines rest [] False))"
    using scan_lines_block [OF assms] by (simp add: make_x86_block_eq)
  moreover have "length (pre @ m # body) = length pre + length body + 1"
    by simp
  ultimately have "fst (scan_lines (pre @ m # body @ rest) [] False) ! (length pre + length body + 1)
      = first_indent body @ x86_64_marker"
    by (metis nth_append_length)
  moreover have "x86_64_marker = replace ''ios_sim_arm64'' ''ios_x86_64'' sim_arm64_marker"
    by code_simp
  ultimately show ?thesis by blast
qed

theorem new_marker_is_indent_and_literal_witness:
  \<open>\<not> contains sim_arm64_marker ''x''
   \<and> contains sim_arm64_marker (''  '' @ sim_arm64_marker @ '' # sim'')
   \<and> \<not> is_block_end '''' \<and> \<not> is_block_end ''y'' \<and> \<not> is_block_end ''      x''
   \<and> is_block_end ''  fi''
   \<and> fst (scan_lines ([''x''] @ (''  '' @ sim_arm64_marker @ '' # sim'')
            # ['''', ''y'', ''      x''] @ [''  fi'']) [] False) ! 5
       = ''      elif [ "$(TARGET_CPU)" == "ios_x86_64" ]; then''\<close>
proof -
  have hs: \<open>\<not> contains sim_arm64_marker ''x''
   \<and> contains sim_arm64_marker (''  '' @ sim_arm64_marker @ '' # sim'')
   \<and> \<not> is_block_end '''' \<and> \<not> is_block_end ''y'' \<and> \<not> is_block_end ''      x''
   \<and> is_block_end ''  fi''\<close>
    by code_simp
  have h1: "\<forall>l\<in>set [''x'']. \<not> contains sim_arm64_marker l"
    by code_simp
  have h2: "contains sim_arm64_marker (''  '' @ sim_arm64_marker @ '' # sim'')"
    by code_simp
  have h3: "\<forall>l\<in>set ['''', ''y'', ''      x'']. \<not> is_block_end l"
    by code_simp
  have h4: "[''  fi''] = [] \<or> is_block_end (hd [''  fi''])"
    by code_simp
  have ind: \<open>first_indent ['''', ''y'', ''      x''] @ x86_64_marker
      = ''      elif [ "$(TARGET_CPU)" == "ios_x86_64" ]; then''\<close>
    by code_simp
  have pos: "length [''x''] + length ['''', ''y'', ''      x''] + 1 = 5"
    by simp
  note inst = new_marker_is_indent_and_literal [OF h1 h2 h3 h4, THEN conjunct1]
  show ?thesis
    using hs inst unfolding ind pos by blast
qed

text \<open>
  Claim C4. Under the decomposition of claim C1, the \<open>i\<close>-th line after the new
  marker line is the \<open>i\<close>-th body line with first \<open>aarch64\<close> and then \<open>arm64\<close>
  replaced by \<open>x86_64\<close>, each over the whole line. For the block with the one body
  line \<open>a: arm64_flag\<close> the output keeps that line and has, after the original block
  and the new marker line and before the block end \<open>fi\<close>, the line \<open>a: x86_64_flag\<close>.
\<close>

theorem body_lines_rewritten_in_order:
  assumes "\<forall>l\<in>set pre. \<not> contains sim_arm64_marker l"
    and "contains sim_arm64_marker m"
    and "\<forall>l\<in>set body. \<not> is_block_end l"
    and "rest = [] \<or> is_block_end (hd rest)"
    and "i < length body"
  shows "fst (scan_lines (pre @ m # body @ rest) [] False) ! (length pre + length body + 2 + i)
           = replace ''arm64'' ''x86_64'' (replace ''aarch64'' ''x86_64'' (body ! i))
         \<and> fst (scan_lines (pre @ m # body @ rest) [] False) ! (length pre + 1 + i) = body ! i
         \<and> scan_lines [sim_arm64_marker, ''a: arm64_flag'', ''fi''] [] False =
             ([sim_arm64_marker, ''a: arm64_flag'', x86_64_marker, ''a: x86_64_flag'', ''fi''],
              True)"
proof -
  let ?f = "\<lambda>bl. replace ''arm64'' ''x86_64'' (replace ''aarch64'' ''x86_64'' bl)"
  let ?out = "fst (scan_lines (pre @ m # body @ rest) [] False)"
  have out: "?out = (pre @ m # body @ [first_indent body @ x86_64_marker])
         @ (map ?f body @ fst (scan_lines rest [] False))"
    using scan_lines_block [OF assms(1-4)] by (simp add: make_x86_block_eq)
  have len: "length (pre @ m # body @ [first_indent body @ x86_64_marker])
      = length pre + length body + 2"
    by simp
  have "?out ! (length pre + length body + 2 + i) = (map ?f body @ fst (scan_lines rest [] False)) ! i"
    unfolding out using len by (metis nth_append_length_plus)
  also have "\<dots> = ?f (body ! i)"
    using assms(5) by (simp add: nth_append)
  finally have new: "?out ! (length pre + length body + 2 + i) = ?f (body ! i)" .
  have out2: "?out = (pre @ [m]) @ (body @ make_x86_block (first_indent body) body
         @ fst (scan_lines rest [] False))"
    using scan_lines_block [OF assms(1-4)] by simp
  have "?out ! (length (pre @ [m]) + i) = (body @ make_x86_block (first_indent body) body
         @ fst (scan_lines rest [] False)) ! i"
    unfolding out2 by (rule nth_append_length_plus)
  then have old: "?out ! (length pre + 1 + i) = body ! i"
    using assms(5) by (simp add: nth_append)
  have ex: "scan_lines [sim_arm64_marker, ''a: arm64_flag'', ''fi''] [] False =
             ([sim_arm64_marker, ''a: arm64_flag'', x86_64_marker, ''a: x86_64_flag'', ''fi''],
              True)"
    by code_simp
  show ?thesis
    using new old ex by blast
qed

theorem body_lines_rewritten_in_order_witness:
  "\<not> contains sim_arm64_marker ''x''
   \<and> contains sim_arm64_marker sim_arm64_marker
   \<and> \<not> is_block_end ''a: arm64_flag'' \<and> \<not> is_block_end ''--cpu=aarch64 --arch=arm64''
   \<and> is_block_end ''fi''
   \<and> (1::nat) < length [''a: arm64_flag'', ''--cpu=aarch64 --arch=arm64'']
   \<and> fst (scan_lines ([''x''] @ sim_arm64_marker
            # [''a: arm64_flag'', ''--cpu=aarch64 --arch=arm64''] @ [''fi'']) [] False) ! 6
       = ''--cpu=x86_64 --arch=x86_64''"
proof -
  have hs: "\<not> contains sim_arm64_marker ''x''
   \<and> contains sim_arm64_marker sim_arm64_marker
   \<and> \<not> is_block_end ''a: arm64_flag'' \<and> \<not> is_block_end ''--cpu=aarch64 --arch=arm64''
   \<and> is_block_end ''fi''
   \<and> (1::nat) < length [''a: arm64_flag'', ''--cpu=aarch64 --arch=arm64'']"
    by code_simp
  have h1: "\<forall>l\<in>set [''x'']. \<not> contains sim_arm64_marker l"
    by code_simp
  have h2: "contains sim_arm64_marker sim_arm64_marker"
    by code_simp
  have h3: "\<forall>l\<in>set [''a: arm64_flag'', ''--cpu=aarch64 --arch=arm64'']. \<not> is_block_end l"
    by code_simp
  have h4: "[''fi''] = [] \<or> is_block_end (hd [''fi''])"
    by code_simp
  have h5: "(1::nat) < length [''a: arm64_flag'', ''--cpu=aarch64 --arch=arm64'']"
    by simp
  have pos: "length [''x''] + length [''a: arm64_flag'', ''--cpu=aarch64 --arch=arm64'']
      + 2 + 1 = 6"
    by simp
  have val: "replace ''arm64'' ''x86_64'' (replace ''aarch64'' ''x86_64''
      ([''a: arm64_flag'', ''--cpu=aarch64 --arch=arm64''] ! 1)) = ''--cpu=x86_64 --arch=x86_64''"
    by code_simp
  note inst = body_lines_rewritten_in_order [OF h1 h2 h3 h4 h5, THEN conjunct1]
  show ?thesis
    using hs inst unfolding pos val by blast
qed

text \<open>
  Claim C10. When the marker line is followed by no block end up to the end of the
  input, every remaining line is block body, and the duplicated block (the new
  marker line and the rewritten body) is the end of the output.
\<close>

theorem block_without_end_appended_last:
  assumes "\<forall>l\<in>set pre. \<not> contains sim_arm64_marker l"
    and "contains sim_arm64_marker m"
    and "\<forall>l\<in>set body. \<not> is_block_end l"
  shows "scan_lines (pre @ m # body) [] False =
           (pre @ m # body @ (first_indent body @ x86_64_marker)
              # map (\<lambda>bl. replace ''arm64'' ''x86_64'' (replace ''aarch64'' ''x86_64'' bl)) body,
            True)"
  using scan_lines_block [OF assms, of "[]"] by (simp add: make_x86_block_eq)

theorem block_without_end_appended_last_witness:
  \<open>\<not> contains sim_arm64_marker ''if a; then''
   \<and> contains sim_arm64_marker (''  '' @ sim_arm64_marker)
   \<and> \<not> is_block_end ''    arm64'' \<and> \<not> is_block_end ''""",''
   \<and> scan_lines ([''if a; then''] @ (''  '' @ sim_arm64_marker) # [''    arm64'', ''""",''])
        [] False =
       ([''if a; then'', ''  '' @ sim_arm64_marker, ''    arm64'', ''""",'',
         ''    '' @ x86_64_marker, ''    x86_64'', ''""",''], True)\<close>
proof -
  have hs: \<open>\<not> contains sim_arm64_marker ''if a; then''
   \<and> contains sim_arm64_marker (''  '' @ sim_arm64_marker)
   \<and> \<not> is_block_end ''    arm64'' \<and> \<not> is_block_end ''""",''\<close>
    by code_simp
  have h1: "\<forall>l\<in>set [''if a; then'']. \<not> contains sim_arm64_marker l"
    by code_simp
  have h2: "contains sim_arm64_marker (''  '' @ sim_arm64_marker)"
    by code_simp
  have h3: \<open>\<forall>l\<in>set [''    arm64'', ''""",'']. \<not> is_block_end l\<close>
    by code_simp
  have val: \<open>[''if a; then''] @ (''  '' @ sim_arm64_marker) # [''    arm64'', ''""",'']
      @ (first_indent [''    arm64'', ''""",''] @ x86_64_marker)
        # map (\<lambda>bl. replace ''arm64'' ''x86_64'' (replace ''aarch64'' ''x86_64'' bl))
            [''    arm64'', ''""",'']
     = [''if a; then'', ''  '' @ sim_arm64_marker, ''    arm64'', ''""",'',
         ''    '' @ x86_64_marker, ''    x86_64'', ''""",'']\<close>
    by code_simp
  note inst = block_without_end_appended_last [OF h1 h2 h3]
  show ?thesis
    using hs inst unfolding val by blast
qed

section \<open>Properties of the patch functions\<close>

subsection \<open>The four outcomes of each single-file function\<close>

lemma patch_build_system_build_missing:
  "files w p = None \<Longrightarrow>
   patch_build_system_build clock p dry_run w =
     Inr (False, w\<lparr>stdout := stdout w @ [''\<newline>[1/8] Patching '' @ p, ''  ERROR: File not found: '' @ p]\<rparr>)"
  by (simp add: patch_build_system_build_def print_def)

lemma patch_build_system_build_skip:
  "files w p = Some content \<Longrightarrow> contains ''ios_sim_x86_64'' content \<Longrightarrow>
   patch_build_system_build clock p dry_run w =
     Inr (True, w\<lparr>events := events w @ [Read p],
                   stdout := stdout w @ [''\<newline>[1/8] Patching '' @ p, ''  Already patched, skipping.'']\<rparr>)"
  by (simp add: patch_build_system_build_def print_def)

lemma patch_build_system_build_dry_run:
  "files w p = Some content \<Longrightarrow> \<not> contains ''ios_sim_x86_64'' content \<Longrightarrow>
   patch_build_system_build clock p True w =
     Inr (True, w\<lparr>events := events w @ [Read p],
                   stdout := stdout w @ [''\<newline>[1/8] Patching '' @ p, ''  [DRY RUN] Would replace entire file with x86_64 config settings'']\<rparr>)"
  by (simp add: patch_build_system_build_def print_def)

lemma patch_build_system_build_write:
  "files w p = Some content \<Longrightarrow> \<not> contains ''ios_sim_x86_64'' content \<Longrightarrow>
   patch_build_system_build clock p False w =
     Inr (True,
       w\<lparr>files := (files w)
              (p @ ''.backup.'' @ clock p \<mapsto> content,
               p \<mapsto> new_config_settings),
         events := events w @
           [Read p, Copy p (p @ ''.backup.'' @ clock p),
            Write p (new_config_settings)],
         stdout := stdout w @
           [''\<newline>[1/8] Patching '' @ p, ''  Backup created: '' @ p @ ''.backup.'' @ clock p,
            ''  Successfully added ios_sim_x86_64 and ios_x86_64 config settings'']\<rparr>)"
  by (simp add: patch_build_system_build_def print_def backup_file_def write_file_def Let_def)

lemma patch_webrtc_build_missing:
  "files w p = None \<Longrightarrow>
   patch_webrtc_build clock p dry_run w =
     Inr (False, w\<lparr>stdout := stdout w @ [''\<newline>[2/8] Patching '' @ p, ''  ERROR: File not found: '' @ p]\<rparr>)"
  by (simp add: patch_webrtc_build_def print_def)

lemma patch_webrtc_build_skip:
  "files w p = Some content \<Longrightarrow> contains ''ios_sim_x86_64'' content \<Longrightarrow>
   patch_webrtc_build clock p dry_run w =
     Inr (True, w\<lparr>events := events w @ [Read p],
                   stdout := stdout w @ [''\<newline>[2/8] Patching '' @ p, ''  Already patched, skipping.'']\<rparr>)"
  by (simp add: patch_webrtc_build_def print_def)

lemma patch_webrtc_build_dry_run:
  "files w p = Some content \<Longrightarrow> \<not> contains ''ios_sim_x86_64'' content \<Longrightarrow>
   patch_webrtc_build clock p True w =
     Inr (True, w\<lparr>events := events w @ [Read p],
                   stdout := stdout w @ [''\<newline>[2/8] Patching '' @ p, ''  [DRY RUN] Would add x86_64 support to arch_specific_sources and arch_specific_cflags'']\<rparr>)"
  by (simp add: patch_webrtc_build_def print_def)

lemma patch_webrtc_build_write:
  "files w p = Some content \<Longrightarrow> \<not> contains ''ios_sim_x86_64'' content \<Longrightarrow>
   patch_webrtc_build clock p False w =
     Inr (True,
       w\<lparr>files := (files w)
              (p @ ''.backup.'' @ clock p \<mapsto> content,
               p \<mapsto> replace old_arch_specific_cflags new_arch_specific_cflags (replace old_arch_specific_sources new_arch_specific_sources content)),
         events := events w @
           [Read p, Copy p (p @ ''.backup.'' @ clock p),
            Write p (replace old_arch_specific_cflags new_arch_specific_cflags (replace old_arch_specific_sources new_arch_specific_sources content))],
         stdout := stdout w @
           [''\<newline>[2/8] Patching '' @ p, ''  Backup created: '' @ p @ ''.backup.'' @ clock p,
            ''  Successfully added x86_64 support'']\<rparr>)"
  by (simp add: patch_webrtc_build_def print_def backup_file_def write_file_def Let_def)

lemma patch_libyuv_build_missing:
  "files w p = None \<Longrightarrow>
   patch_libyuv_build clock p dry_run w =
     Inr (False, w\<lparr>stdout := stdout w @ [''\<newline>[3/8] Patching '' @ p, ''  ERROR: File not found: '' @ p]\<rparr>)"
  by (simp add: patch_libyuv_build_def print_def)

lemma patch_libyuv_build_skip:
  "files w p = Some content \<Longrightarrow> contains ''ios_sim_x86_64'' content \<Longrightarrow>
   patch_libyuv_build clock p dry_run w =
     Inr (True, w\<lparr>events := events w @ [Read p],
                   stdout := stdout w @ [''\<newline>[3/8] Patching '' @ p, ''  Already patched, skipping.'']\<rparr>)"
  by (simp add: patch_libyuv_build_def print_def)

lemma patch_libyuv_build_dry_run:
  "files w p = Some content \<Longrightarrow> \<not> contains ''ios_sim_x86_64'' content \<Longrightarrow>
   patch_libyuv_build clock p True w =
     Inr (True, w\<lparr>events := events w @ [Read p],
                   stdout := stdout w @ [''\<newline>[3/8] Patching '' @ p, ''  [DRY RUN] Would add x86_64 support to select() statements'']\<rparr>)"
  by (simp add: patch_libyuv_build_def print_def)

lemma patch_libyuv_build_write:
  "files w p = Some content \<Longrightarrow> \<not> contains ''ios_sim_x86_64'' content \<Longrightarrow>
   patch_libyuv_build clock p False w =
     Inr (True,
       w\<lparr>files := (files w)
              (p @ ''.backup.'' @ clock p \<mapsto> content,
               p \<mapsto> sub_insert libyuv_pattern_group1 libyuv_pattern_group2 libyuv_inserted content),
         events := events w @
           [Read p, Copy p (p @ ''.backup.'' @ clock p),
            Write p (sub_insert libyuv_pattern_group1 libyuv_pattern_group2 libyuv_inserted content)],
         stdout := stdout w @
           [''\<newline>[3/8] Patching '' @ p, ''  Backup created: '' @ p @ ''.backup.'' @ clock p,
            ''  Successfully added x86_64 support'']\<rparr>)"
  by (simp add: patch_libyuv_build_def print_def backup_file_def write_file_def Let_def)

lemma patch_openh264_build_missing:
  "files w p = None \<Longrightarrow>
   patch_openh264_build clock p dry_run w =
     Inr (False, w\<lparr>stdout := stdout w @ [''\<newline>[4/8] Patching '' @ p, ''  ERROR: File not found: '' @ p]\<rparr>)"
  by (simp add: patch_openh264_build_def print_def)

lemma patch_openh264_build_skip:
  "files w p = Some content \<Longrightarrow> contains ''ios_sim_x86_64'' content \<Longrightarrow>
   patch_openh264_build clock p dry_run w =
     Inr (True, w\<lparr>events := events w @ [Read p],
                   stdout := stdout w @ [''\<newline>[4/8] Patching '' @ p, ''  Already patched, skipping.'']\<rparr>)"
  by (simp add: patch_openh264_build_def print_def)

lemma patch_openh264_build_dry_run:
  "files w p = Some content \<Longrightarrow> \<not> contains ''ios_sim_x86_64'' content \<Longrightarrow>
   patch_openh264_build clock p True w =
     Inr (True, w\<lparr>events := events w @ [Read p],
                   stdout := stdout w @ [''\<newline>[4/8] Patching '' @ p, ''  [DRY RUN] Would add x86_64 support to select() statements'']\<rparr>)"
  by (simp add: patch_openh264_build_def print_def)

lemma patch_openh264_build_write:
  "files w p = Some content \<Longrightarrow> \<not> contains ''ios_sim_x86_64'' content \<Longrightarrow>
   patch_openh264_build clock p False w =
     Inr (True,
       w\<lparr>files := (files w)
              (p @ ''.backup.'' @ clock p \<mapsto> content,
               p \<mapsto> sub_insert openh264_textual_hdrs_pattern_group1 openh264_textual_hdrs_pattern_group2 openh264_inserted (sub_insert openh264_copts_pattern_group1 openh264_copts_pattern_group2 openh264_inserted (sub_insert openh264_sources_pattern_group1 openh264_sources_pattern_group2 openh264_inserted content))),
         events := events w @
           [Read p, Copy p (p @ ''.backup.'' @ clock p),
            Write p (sub_insert openh264_textual_hdrs_pattern_group1 openh264_textual_hdrs_pattern_group2 openh264_inserted (sub_insert openh264_copts_pattern_group1 openh264_copts_pattern_group2 openh264_inserted (sub_insert openh264_sources_pattern_group1 openh264_sources_pattern_group2 openh264_inserted content)))],
         stdout := stdout w @
           [''\<newline>[4/8] Patching '' @ p, ''  Backup created: '' @ p @ ''.backup.'' @ clock p,
            ''  Successfully added x86_64 support'']\<rparr>)"
  by (simp add: patch_openh264_build_def print_def backup_file_def write_file_def Let_def)

lemma patch_libsrtp_build_missing:
  "files w p = None \<Longrightarrow>
   patch_libsrtp_build clock p dry_run w =
     Inr (False, w\<lparr>stdout := stdout w @ [''\<newline>[5/8] Patching '' @ p, ''  ERROR: File not found: '' @ p]\<rparr>)"
  by (simp add: patch_libsrtp_build_def print_def)

lemma patch_libsrtp_build_skip:
  "files w p = Some content \<Longrightarrow> contains ''ios_sim_x86_64'' content \<Longrightarrow>
   patch_libsrtp_build clock p dry_run w =
     Inr (True, w\<lparr>events := events w @ [Read p],
                   stdout := stdout w @ [''\<newline>[5/8] Patching '' @ p, ''  Already patched, skipping.'']\<rparr>)"
  by (simp add: patch_libsrtp_build_def print_def)

lemma patch_libsrtp_build_dry_run:
  "files w p = Some content \<Longrightarrow> \<not> contains ''ios_sim_x86_64'' content \<Longrightarrow>
   patch_libsrtp_build clock p True w =
     Inr (True, w\<lparr>events := events w @ [Read p],
                   stdout := stdout w @ [''\<newline>[5/8] Patching '' @ p, ''  [DRY RUN] Would add x86_64 support to select() statements'']\<rparr>)"
  by (simp add: patch_libsrtp_build_def print_def)

lemma patch_libsrtp_build_write:
  "files w p = Some content \<Longrightarrow> \<not> contains ''ios_sim_x86_64'' content \<Longrightarrow>
   patch_libsrtp_build clock p False w =
     Inr (True,
       w\<lparr>files := (files w)
              (p @ ''.backup.'' @ clock p \<mapsto> content,
               p \<mapsto> sub_insert libsrtp_pattern_group1 libsrtp_pattern_group2 libsrtp_inserted content),
         events := events w @
           [Read p, Copy p (p @ ''.backup.'' @ clock p),
            Write p (sub_insert libsrtp_pattern_group1 libsrtp_pattern_group2 libsrtp_inserted content)],
         stdout := stdout w @
           [''\<newline>[5/8] Patching '' @ p, ''  Backup created: '' @ p @ ''.backup.'' @ clock p,
            ''  Successfully added x86_64 support'']\<rparr>)"
  by (simp add: patch_libsrtp_build_def print_def backup_file_def write_file_def Let_def)

lemma patch_crc32c_build_missing:
  "files w p = None \<Longrightarrow>
   patch_crc32c_build clock p dry_run w =
     Inr (False, w\<lparr>stdout := stdout w @ [''\<newline>[6/8] Patching '' @ p, ''  ERROR: File not found: '' @ p]\<rparr>)"
  by (simp add: patch_crc32c_build_def print_def)

lemma patch_crc32c_build_skip:
  "files w p = Some content \<Longrightarrow> contains ''ios_sim_x86_64'' content \<Longrightarrow>
   patch_crc32c_build clock p dry_run w =
     Inr (True, w\<lparr>events := events w @ [Read p],
                   stdout := stdout w @ [''\<newline>[6/8] Patching '' @ p, ''  Already patched, skipping.'']\<rparr>)"
  by (simp add: patch_crc32c_build_def print_def)

lemma patch_crc32c_build_dry_run:
  "files w p = Some content \<Longrightarrow> \<not> contains ''ios_sim_x86_64'' content \<Longrightarrow>
   patch_crc32c_build clock p True w =
     Inr (True, w\<lparr>events := events w @ [Read p],
                   stdout := stdout w @ [''\<newline>[6/8] Patching '' @ p, ''  [DRY RUN] Would add x86_64 support to select() statements'']\<rparr>)"
  by (simp add: patch_crc32c_build_def print_def)

lemma patch_crc32c_build_write:
  "files w p = Some content \<Longrightarrow> \<not> contains ''ios_sim_x86_64'' content \<Longrightarrow>
   patch_crc32c_build clock p False w =
     Inr (True,
       w\<lparr>files := (files w)
              (p @ ''.backup.'' @ clock p \<mapsto> content,
               p \<mapsto> sub_insert crc32c_pattern_group1 crc32c_pattern_group2 crc32c_inserted content),
         events := events w @
           [Read p, Copy p (p @ ''.backup.'' @ clock p),
            Write p (sub_insert crc32c_pattern_group1 crc32c_pattern_group2 crc32c_inserted content)],
         stdout := stdout w @
           [''\<newline>[6/8] Patching '' @ p, ''  Backup created: '' @ p @ ''.backup.'' @ clock p,
            ''  Successfully added x86_64 support'']\<rparr>)"
  by (simp add: patch_crc32c_build_def print_def backup_file_def write_file_def Let_def)

lemma patch_make_py_missing:
  "files w p = None \<Longrightarrow>
   patch_make_py clock p dry_run w =
     Inr (False, w\<lparr>stdout := stdout w @ [''\<newline>[7/8] Patching '' @ p, ''  ERROR: File not found: '' @ p]\<rparr>)"
  by (simp add: patch_make_py_def print_def)

lemma patch_make_py_skip:
  "files w p = Some content \<Longrightarrow> contains ''debug_sim_x86_64'' content \<Longrightarrow>
   patch_make_py clock p dry_run w =
     Inr (True, w\<lparr>events := events w @ [Read p],
                   stdout := stdout w @ [''\<newline>[7/8] Patching '' @ p, ''  Already patched, skipping.'']\<rparr>)"
  by (simp add: patch_make_py_def print_def)

lemma patch_make_py_dry_run:
  "files w p = Some content \<Longrightarrow> \<not> contains ''debug_sim_x86_64'' content \<Longrightarrow>
   patch_make_py clock p True w =
     Inr (True, w\<lparr>events := events w @ [Read p],
                   stdout := stdout w @ [''\<newline>[7/8] Patching '' @ p, ''  [DRY RUN] Would add debug_sim_x86_64 and release_sim_x86_64 configurations'']\<rparr>)"
  by (simp add: patch_make_py_def print_def)

lemma patch_make_py_write:
  "files w p = Some content \<Longrightarrow> \<not> contains ''debug_sim_x86_64'' content \<Longrightarrow>
   patch_make_py clock p False w =
     Inr (True,
       w\<lparr>files := (files w)
              (p @ ''.backup.'' @ clock p \<mapsto> content,
               p \<mapsto> replace old_choices new_choices (replace old_release_arm64 new_configurations content)),
         events := events w @
           [Read p, Copy p (p @ ''.backup.'' @ clock p),
            Write p (replace old_choices new_choices (replace old_release_arm64 new_configurations content))],
         stdout := stdout w @
           [''\<newline>[7/8] Patching '' @ p, ''  Backup created: '' @ p @ ''.backup.'' @ clock p,
            ''  Successfully added debug_sim_x86_64 and release_sim_x86_64 configurations'']\<rparr>)"
  by (simp add: patch_make_py_def print_def backup_file_def write_file_def Let_def)

subsection \<open>The outcomes of the genrule loop body\<close>

lemma patch_genrule_file_missing:
  "files w p = None \<Longrightarrow>
   patch_genrule_file clock dry_run p (n, w) =
     Inr (n, w\<lparr>stdout := stdout w @ [''  WARNING: File not found: '' @ p]\<rparr>)"
  by (simp add: patch_genrule_file_def print_def)

lemma patch_genrule_file_skip:
  "files w p = Some content \<Longrightarrow> contains ''ios_x86_64'' content \<Longrightarrow>
   patch_genrule_file clock dry_run p (n, w) =
     Inr (n, w\<lparr>events := events w @ [Read p],
                stdout := stdout w @ [''  '' @ p @ '': Already patched, skipping.'']\<rparr>)"
  by (simp add: patch_genrule_file_def print_def)

lemma patch_genrule_file_dry_run:
  "files w p = Some content \<Longrightarrow> \<not> contains ''ios_x86_64'' content \<Longrightarrow>
   patch_genrule_file clock True p (n, w) =
     Inr (n + 1, w\<lparr>events := events w @ [Read p],
                    stdout := stdout w @ [''  [DRY RUN] Would patch '' @ p]\<rparr>)"
  by (simp add: patch_genrule_file_def print_def)

lemma patch_genrule_file_write:
  "files w p = Some content \<Longrightarrow> \<not> contains ''ios_x86_64'' content \<Longrightarrow>
   patch_genrule_file clock False p (n, w) =
     Inr (if snd (patch_genrule_content content) then n + 1 else n,
       w\<lparr>files := (files w)
              (p @ ''.backup.'' @ clock p \<mapsto> content,
               p \<mapsto> fst (patch_genrule_content content)),
         events := events w @
           [Read p, Copy p (p @ ''.backup.'' @ clock p),
            Write p (fst (patch_genrule_content content))],
         stdout := stdout w @
           [''  Backup created: '' @ p @ ''.backup.'' @ clock p,
            ''  '' @ p @ (if snd (patch_genrule_content content)
                         then '': Successfully patched''
                         else '': No changes needed or pattern not found'')]\<rparr>)"
  by (simp add: patch_genrule_file_def print_def backup_file_def write_file_def Let_def
      split: prod.splits)

lemma scan_lines_unchanged:
  "\<forall>l\<in>set ls. \<not> contains sim_arm64_marker l \<Longrightarrow> scan_lines ls [] False = (ls, False)"
  using scan_lines_no_marker [of ls "[]" "[]" False] by simp

lemma patch_genrule_content_unchanged:
  "\<forall>l\<in>set (split_on CHR 0x0A content). \<not> contains sim_arm64_marker l \<Longrightarrow>
   patch_genrule_content content = (content, False)"
  by (simp add: patch_genrule_content_def scan_lines_unchanged)


subsection \<open>Claims about genrule files without a marker line\<close>

text \<open>
  Claim C5. When no line of the content holds the marker, the loop returns the lines
  as they are with \<open>modified\<close> unset, the content computed for the file is the
  input content, and the loop body, for an existing file without \<open>ios_x86_64\<close> and
  not in a dry run, returns normally (an \<open>Inr\<close> result, no exception), writes that
  same content, leaves \<open>patched_count\<close> as it is and prints
  \<open>No changes needed or pattern not found\<close>.
\<close>

theorem no_marker_line_leaves_content:
  assumes "\<forall>l\<in>set (split_on CHR 0x0A content). \<not> contains sim_arm64_marker l"
  shows "scan_lines (split_on CHR 0x0A content) [] False = (split_on CHR 0x0A content, False)
    \<and> patch_genrule_content content = (content, False)
    \<and> (files w p = Some content \<longrightarrow> \<not> contains ''ios_x86_64'' content \<longrightarrow>
         patch_genrule_file clock False p (n, w) =
           Inr (n,
             w\<lparr>files := (files w)(p @ ''.backup.'' @ clock p \<mapsto> content, p \<mapsto> content),
               events := events w @
                 [Read p, Copy p (p @ ''.backup.'' @ clock p), Write p content],
               stdout := stdout w @
                 [''  Backup created: '' @ p @ ''.backup.'' @ clock p,
                  ''  '' @ p @ '': No changes needed or pattern not found'']\<rparr>))"
  using scan_lines_unchanged [OF assms] patch_genrule_content_unchanged [OF assms]
  by (simp add: patch_genrule_file_write)

theorem no_marker_line_leaves_content_witness:
  "\<not> contains sim_arm64_marker ''if a; then''
   \<and> \<not> contains sim_arm64_marker ''fi''
   \<and> split_on CHR 0x0A ''if a; then\<newline>fi'' = [''if a; then'', ''fi'']
   \<and> patch_genrule_content ''if a; then\<newline>fi'' = (''if a; then\<newline>fi'', False)
   \<and> patch_genrule_file (\<lambda>p. ''20240101_120000'') False ''third-party/opus/BUILD''
        (0, \<lparr>files = [''third-party/opus/BUILD'' \<mapsto> ''if a; then\<newline>fi''],
             events = [], stdout = []\<rparr>) =
       Inr (0,
         \<lparr>files = [''third-party/opus/BUILD'' \<mapsto> ''if a; then\<newline>fi'',
                    ''third-party/opus/BUILD.backup.20240101_120000'' \<mapsto> ''if a; then\<newline>fi''],
          events = [Read ''third-party/opus/BUILD'',
                    Copy ''third-party/opus/BUILD'' ''third-party/opus/BUILD.backup.20240101_120000'',
                    Write ''third-party/opus/BUILD'' ''if a; then\<newline>fi''],
          stdout = [''  Backup created: third-party/opus/BUILD.backup.20240101_120000'',
                    ''  third-party/opus/BUILD: No changes needed or pattern not found'']\<rparr>)"
proof -
  let ?c = "''if a; then\<newline>fi''"
  let ?p = "''third-party/opus/BUILD''"
  let ?w = "\<lparr>files = [?p \<mapsto> ?c], events = [], stdout = []\<rparr>"
  have hs: "\<not> contains sim_arm64_marker ''if a; then'' \<and> \<not> contains sim_arm64_marker ''fi''
      \<and> split_on CHR 0x0A ?c = [''if a; then'', ''fi'']"
    by code_simp
  then have h: "\<forall>l\<in>set (split_on CHR 0x0A ?c). \<not> contains sim_arm64_marker l"
    by simp
  have f: "files ?w ?p = Some ?c"
    by simp
  have x: "\<not> contains ''ios_x86_64'' ?c"
    by code_simp
  note inst = no_marker_line_leaves_content [OF h, of ?w ?p "\<lambda>p. ''20240101_120000''" 0]
  have c2: "patch_genrule_content ?c = (?c, False)"
    using inst by blast
  have "patch_genrule_file (\<lambda>p. ''20240101_120000'') False ?p (0, ?w) =
      Inr (0, ?w\<lparr>files := (files ?w)(?p @ ''.backup.'' @ ''20240101_120000'' \<mapsto> ?c, ?p \<mapsto> ?c),
               events := events ?w @
                 [Read ?p, Copy ?p (?p @ ''.backup.'' @ ''20240101_120000''), Write ?p ?c],
               stdout := stdout ?w @
                 [''  Backup created: '' @ ?p @ ''.backup.'' @ ''20240101_120000'',
                  ''  '' @ ?p @ '': No changes needed or pattern not found'']\<rparr>)"
    using inst f x by blast
  then have c3: "patch_genrule_file (\<lambda>p. ''20240101_120000'') False ?p (0, ?w) =
       Inr (0,
         \<lparr>files = [?p \<mapsto> ?c, ''third-party/opus/BUILD.backup.20240101_120000'' \<mapsto> ?c],
          events = [Read ?p, Copy ?p ''third-party/opus/BUILD.backup.20240101_120000'',
                    Write ?p ?c],
          stdout = [''  Backup created: third-party/opus/BUILD.backup.20240101_120000'',
                    ''  third-party/opus/BUILD: No changes needed or pattern not found'']\<rparr>)"
    by (simp add: fun_upd_twist)
  show ?thesis
    using hs c2 c3 by blast
qed



subsection \<open>Dry runs\<close>

lemma untouched_refl: "untouched w w"
  by (simp add: untouched_def)

lemma untouched_trans: "untouched w w' \<Longrightarrow> untouched w' w'' \<Longrightarrow> untouched w w''"
  by (simp add: untouched_def)

lemma untouched_read: "untouched w (w\<lparr>events := events w @ [Read p], stdout := out\<rparr>)"
  by (simp add: untouched_def)

lemma untouched_print: "untouched w (w\<lparr>stdout := out\<rparr>)"
  by (simp add: untouched_def)

lemma patch_genrule_file_dry_run_step:
  "\<exists>w'. patch_genrule_file clock True p (n, w) =
      Inr (if (case files w p of None \<Rightarrow> False | Some c \<Rightarrow> \<not> contains ''ios_x86_64'' c)
           then n + 1 else n, w')
     \<and> untouched w w'"
proof (cases "files w p")
  case None
  then show ?thesis
    by (simp add: patch_genrule_file_missing untouched_print)
next
  case (Some c)
  then show ?thesis
    by (cases "contains ''ios_x86_64'' c")
      (simp_all add: patch_genrule_file_skip patch_genrule_file_dry_run untouched_read)
qed

lemma genrule_loop_dry_run:
  "\<exists>w'. genrule_loop clock True fs (n, w) =
      Inr (n + length (filter (\<lambda>p. case files w p of None \<Rightarrow> False
                                      | Some c \<Rightarrow> \<not> contains ''ios_x86_64'' c) fs), w')
     \<and> untouched w w'"
proof (induction fs arbitrary: n w)
  case Nil
  show ?case by (simp add: untouched_refl)
next
  case (Cons p fs)
  let ?new = "\<lambda>w p. case files w p of None \<Rightarrow> False | Some c \<Rightarrow> \<not> contains ''ios_x86_64'' c"
  obtain w1 where s1: "patch_genrule_file clock True p (n, w) =
      Inr (if ?new w p then n + 1 else n, w1)" and u1: "untouched w w1"
    using patch_genrule_file_dry_run_step [of clock p n w] by blast
  obtain w2 where s2: "genrule_loop clock True fs (if ?new w p then n + 1 else n, w1) =
      Inr ((if ?new w p then n + 1 else n) + length (filter (?new w1) fs), w2)"
    and u2: "untouched w1 w2"
    using Cons.IH [of "if ?new w p then n + 1 else n" w1] by blast
  have same: "files w1 = files w"
    using u1 by (simp add: untouched_def)
  have "genrule_loop clock True (p # fs) (n, w) =
      Inr (n + length (filter (?new w) (p # fs)), w2)"
    using s1 s2 by (simp add: same)
  then show ?case
    using untouched_trans [OF u1 u2] by blast
qed

lemma patch_genrule_build_files_dry_run:
  "\<exists>w'. patch_genrule_build_files clock True w =
      Inr (\<exists>p\<in>set genrule_files. \<exists>c. files w p = Some c \<and> \<not> contains ''ios_x86_64'' c, w')
     \<and> untouched w w'"
proof -
  let ?new = "\<lambda>p. case files w p of None \<Rightarrow> False | Some c \<Rightarrow> \<not> contains ''ios_x86_64'' c"
  let ?w0 = "print ''\<newline>[8/8] Patching genrule BUILD files (ffmpeg, opus, libvpx, etc.)'' w"
  have f0: "files ?w0 = files w" and u0: "untouched w ?w0"
    by (simp_all add: print_def untouched_def)
  obtain w' where l: "genrule_loop clock True genrule_files (0, ?w0) =
      Inr (0 + length (filter (\<lambda>p. case files ?w0 p of None \<Rightarrow> False
            | Some c \<Rightarrow> \<not> contains ''ios_x86_64'' c) genrule_files), w')"
    and u: "untouched ?w0 w'"
    using genrule_loop_dry_run [of clock genrule_files 0 ?w0] by blast
  have "(0 < length (filter ?new genrule_files)) =
      (\<exists>p\<in>set genrule_files. \<exists>c. files w p = Some c \<and> \<not> contains ''ios_x86_64'' c)"
    by (auto simp: filter_empty_conv split: option.splits)
  then have "patch_genrule_build_files clock True w =
      Inr (\<exists>p\<in>set genrule_files. \<exists>c. files w p = Some c \<and> \<not> contains ''ios_x86_64'' c, w')"
    using l by (simp add: patch_genrule_build_files_def f0)
  then show ?thesis
    using untouched_trans [OF u0 u] by blast
qed

lemma patch_build_system_build_returns:
  "\<exists>w' w''. patch_build_system_build clock p True w = Inr (files w p \<noteq> None, w') \<and> untouched w w'
     \<and> patch_build_system_build clock p False w = Inr (files w p \<noteq> None, w'')"
proof (cases "files w p")
  case None
  then show ?thesis
    by (simp add: patch_build_system_build_missing untouched_print)
next
  case (Some c)
  then show ?thesis
    by (cases "contains ''ios_sim_x86_64'' c")
      (simp_all add: patch_build_system_build_skip patch_build_system_build_dry_run patch_build_system_build_write untouched_read)
qed

lemma patch_webrtc_build_returns:
  "\<exists>w' w''. patch_webrtc_build clock p True w = Inr (files w p \<noteq> None, w') \<and> untouched w w'
     \<and> patch_webrtc_build clock p False w = Inr (files w p \<noteq> None, w'')"
proof (cases "files w p")
  case None
  then show ?thesis
    by (simp add: patch_webrtc_build_missing untouched_print)
next
  case (Some c)
  then show ?thesis
    by (cases "contains ''ios_sim_x86_64'' c")
      (simp_all add: patch_webrtc_build_skip patch_webrtc_build_dry_run patch_webrtc_build_write untouched_read)
qed

lemma patch_libyuv_build_returns:
  "\<exists>w' w''. patch_libyuv_build clock p True w = Inr (files w p \<noteq> None, w') \<and> untouched w w'
     \<and> patch_libyuv_build clock p False w = Inr (files w p \<noteq> None, w'')"
proof (cases "files w p")
  case None
  then show ?thesis
    by (simp add: patch_libyuv_build_missing untouched_print)
next
  case (Some c)
  then show ?thesis
    by (cases "contains ''ios_sim_x86_64'' c")
      (simp_all add: patch_libyuv_build_skip patch_libyuv_build_dry_run patch_libyuv_build_write untouched_read)
qed

lemma patch_openh264_build_returns:
  "\<exists>w' w''. patch_openh264_build clock p True w = Inr (files w p \<noteq> None, w') \<and> untouched w w'
     \<and> patch_openh264_build clock p False w = Inr (files w p \<noteq> None, w'')"
proof (cases "files w p")
  case None
  then show ?thesis
    by (simp add: patch_openh264_build_missing untouched_print)
next
  case (Some c)
  then show ?thesis
    by (cases "contains ''ios_sim_x86_64'' c")
      (simp_all add: patch_openh264_build_skip patch_openh264_build_dry_run patch_openh264_build_write untouched_read)
qed

lemma patch_libsrtp_build_returns:
  "\<exists>w' w''. patch_libsrtp_build clock p True w = Inr (files w p \<noteq> None, w') \<and> untouched w w'
     \<and> patch_libsrtp_build clock p False w = Inr (files w p \<noteq> None, w'')"
proof (cases "files w p")
  case None
  then show ?thesis
    by (simp add: patch_libsrtp_build_missing untouched_print)
next
  case (Some c)
  then show ?thesis
    by (cases "contains ''ios_sim_x86_64'' c")
      (simp_all add: patch_libsrtp_build_skip patch_libsrtp_build_dry_run patch_libsrtp_build_write untouched_read)
qed

lemma patch_crc32c_build_returns:
  "\<exists>w' w''. patch_crc32c_build clock p True w = Inr (files w p \<noteq> None, w') \<and> untouched w w'
     \<and> patch_crc32c_build clock p False w = Inr (files w p \<noteq> None, w'')"
proof (cases "files w p")
  case None
  then show ?thesis
    by (simp add: patch_crc32c_build_missing untouched_print)
next
  case (Some c)
  then show ?thesis
    by (cases "contains ''ios_sim_x86_64'' c")
      (simp_all add: patch_crc32c_build_skip patch_crc32c_build_dry_run patch_crc32c_build_write untouched_read)
qed

lemma patch_make_py_returns:
  "\<exists>w' w''. patch_make_py clock p True w = Inr (files w p \<noteq> None, w') \<and> untouched w w'
     \<and> patch_make_py clock p False w = Inr (files w p \<noteq> None, w'')"
proof (cases "files w p")
  case None
  then show ?thesis
    by (simp add: patch_make_py_missing untouched_print)
next
  case (Some c)
  then show ?thesis
    by (cases "contains ''debug_sim_x86_64'' c")
      (simp_all add: patch_make_py_skip patch_make_py_dry_run patch_make_py_write untouched_read)
qed

text \<open>
  Claim C7, as stated, fails for the genrule pass. With one listed file that exists,
  lacks \<open>ios_x86_64\<close> and has no marker line, the dry run returns \<open>True\<close> and the run
  without the flag returns \<open>False\<close>.
\<close>

theorem genrule_dry_run_result_differs:
  "returned (patch_genrule_build_files (\<lambda>p. ''20240101_120000'') True
      \<lparr>files = [''third-party/td/BUILD'' \<mapsto> ''cc_library()''], events = [], stdout = []\<rparr>)
     = Some True
   \<and> returned (patch_genrule_build_files (\<lambda>p. ''20240101_120000'') False
      \<lparr>files = [''third-party/td/BUILD'' \<mapsto> ''cc_library()''], events = [], stdout = []\<rparr>)
     = Some False"
  by code_simp

text \<open>
  Claim C7, amended. With the dry-run flag no patch function makes a backup or
  writes a file: the files are the same afterwards and no copy or write event is
  added. Each of the seven single-file functions returns what it returns without the
  flag, \<open>True\<close> exactly when its file exists. The genrule pass returns \<open>True\<close>
  exactly when some listed file exists and lacks \<open>ios_x86_64\<close>, without looking for
  the marker.
\<close>

theorem dry_run_touches_nothing:
  "(\<forall>f\<in>set
       [patch_build_system_build clock,
        patch_webrtc_build clock,
        patch_libyuv_build clock,
        patch_openh264_build clock,
        patch_libsrtp_build clock,
        patch_crc32c_build clock,
        patch_make_py clock].
      \<exists>w' w''. f p True w = Inr (files w p \<noteq> None, w') \<and> untouched w w'
        \<and> f p False w = Inr (files w p \<noteq> None, w''))
   \<and> (\<exists>w'. patch_genrule_build_files clock True w =
          Inr (\<exists>p\<in>set genrule_files. \<exists>c. files w p = Some c \<and> \<not> contains ''ios_x86_64'' c,
               w')
        \<and> untouched w w')"
  using patch_build_system_build_returns [of clock p w] patch_webrtc_build_returns [of clock p w]
    patch_libyuv_build_returns [of clock p w] patch_openh264_build_returns [of clock p w]
    patch_libsrtp_build_returns [of clock p w] patch_crc32c_build_returns [of clock p w]
    patch_make_py_returns [of clock p w] patch_genrule_build_files_dry_run [of clock w]
  by simp

theorem dry_run_touches_nothing_witness:
  "returned (patch_openh264_build (\<lambda>p. ''20240101_120000'') ''third-party/openh264/BUILD'' True
      \<lparr>files = [''third-party/openh264/BUILD'' \<mapsto> ''cc_library()''], events = [],
       stdout = []\<rparr>) = Some True
   \<and> returned (patch_openh264_build (\<lambda>p. ''20240101_120000'') ''third-party/openh264/BUILD'' False
      \<lparr>files = [''third-party/openh264/BUILD'' \<mapsto> ''cc_library()''], events = [],
       stdout = []\<rparr>) = Some True
   \<and> returned (patch_genrule_build_files (\<lambda>p. ''20240101_120000'') True
      \<lparr>files = [''third-party/openh264/BUILD'' \<mapsto> ''cc_library()''], events = [],
       stdout = []\<rparr>) = Some False"
proof -
  let ?p = "''third-party/openh264/BUILD''"
  let ?w = "\<lparr>files = [?p \<mapsto> ''cc_library()''], events = [], stdout = []\<rparr>"
  let ?clock = "\<lambda>p :: string. ''20240101_120000''"
  note inst = dry_run_touches_nothing [of ?clock ?p ?w]
  have ex: "files ?w ?p \<noteq> None"
    by simp
  have none: "(\<exists>p\<in>set genrule_files. \<exists>c. files ?w p = Some c \<and> \<not> contains ''ios_x86_64'' c)
      = False"
    unfolding genrule_files_def by simp
  have mem: "patch_openh264_build ?clock \<in> set
       [patch_build_system_build ?clock, patch_webrtc_build ?clock, patch_libyuv_build ?clock,
        patch_openh264_build ?clock, patch_libsrtp_build ?clock, patch_crc32c_build ?clock,
        patch_make_py ?clock]"
    by simp
  obtain w' w'' where "patch_openh264_build ?clock ?p True ?w = Inr (files ?w ?p \<noteq> None, w')"
    and "patch_openh264_build ?clock ?p False ?w = Inr (files ?w ?p \<noteq> None, w'')"
    using inst [THEN conjunct1, rule_format, OF mem] by auto
  then have a: "returned (patch_openh264_build ?clock ?p True ?w) = Some True"
    and b: "returned (patch_openh264_build ?clock ?p False ?w) = Some True"
    using ex by (simp_all add: returned_def)
  obtain v where "patch_genrule_build_files ?clock True ?w =
      Inr (\<exists>p\<in>set genrule_files. \<exists>c. files ?w p = Some c \<and> \<not> contains ''ios_x86_64'' c, v)"
    using inst [THEN conjunct2] by auto
  then have c: "returned (patch_genrule_build_files ?clock True ?w) = Some False"
    unfolding none by (simp add: returned_def)
  show ?thesis
    using a b c by blast
qed

subsection \<open>Files that are already patched\<close>

lemma genrule_loop_all_patched:
  "\<forall>q\<in>set fs. \<forall>c. files w q = Some c \<longrightarrow> contains ''ios_x86_64'' c \<Longrightarrow>
   \<exists>w'. genrule_loop clock dry_run fs (n, w) = Inr (n, w') \<and> untouched w w'"
proof (induction fs arbitrary: w)
  case Nil
  show ?case by (simp add: untouched_refl)
next
  case (Cons p fs)
  have "\<exists>w1. patch_genrule_file clock dry_run p (n, w) = Inr (n, w1) \<and> untouched w w1"
  proof (cases "files w p")
    case None
    then show ?thesis
      by (simp add: patch_genrule_file_missing untouched_print)
  next
    case (Some c)
    then have "contains ''ios_x86_64'' c"
      using Cons.prems by simp
    then show ?thesis
      using Some by (simp add: patch_genrule_file_skip untouched_read)
  qed
  then obtain w1 where s1: "patch_genrule_file clock dry_run p (n, w) = Inr (n, w1)"
    and u1: "untouched w w1"
    by blast
  have same: "files w1 = files w"
    using u1 by (simp add: untouched_def)
  have "\<forall>q\<in>set fs. \<forall>c. files w1 q = Some c \<longrightarrow> contains ''ios_x86_64'' c"
    using Cons.prems by (simp add: same)
  then obtain w2 where s2: "genrule_loop clock dry_run fs (n, w1) = Inr (n, w2)"
    and u2: "untouched w1 w2"
    using Cons.IH [of w1] by blast
  have "genrule_loop clock dry_run (p # fs) (n, w) = Inr (n, w2)"
    using s1 s2 by simp
  then show ?case
    using untouched_trans [OF u1 u2] by blast
qed

lemma patch_genrule_build_files_all_patched:
  assumes "\<forall>q\<in>set genrule_files. \<forall>c. files w q = Some c \<longrightarrow> contains ''ios_x86_64'' c"
  shows "\<exists>w'. patch_genrule_build_files clock dry_run w = Inr (False, w') \<and> untouched w w'"
proof -
  let ?w0 = "print ''\<newline>[8/8] Patching genrule BUILD files (ffmpeg, opus, libvpx, etc.)'' w"
  have f0: "files ?w0 = files w" and u0: "untouched w ?w0"
    by (simp_all add: print_def untouched_def)
  have "\<forall>q\<in>set genrule_files. \<forall>c. files ?w0 q = Some c \<longrightarrow> contains ''ios_x86_64'' c"
    using assms by (simp add: f0)
  then obtain w' where l: "genrule_loop clock dry_run genrule_files (0, ?w0) = Inr (0, w')"
    and u: "untouched ?w0 w'"
    using genrule_loop_all_patched [of genrule_files ?w0 clock dry_run 0] by blast
  have "patch_genrule_build_files clock dry_run w = Inr (False, w')"
    using l by (simp add: patch_genrule_build_files_def)
  then show ?thesis
    using untouched_trans [OF u0 u] by blast
qed

text \<open>
  Claim C6, as stated, fails for the genrule pass: it does not report success for
  files that are already patched. With every listed file present and holding
  \<open>ios_x86_64\<close>, \<open>patch_genrule_build_files\<close> returns \<open>False\<close>.
\<close>

theorem genrule_pass_all_patched_returns_false:
  "contains ''ios_x86_64'' ''# ios_x86_64''
   \<and> returned (patch_genrule_build_files (\<lambda>p. ''20240101_120000'') False
        \<lparr>files = (\<lambda>p. if p \<in> set genrule_files then Some ''# ios_x86_64'' else None),
         events = [], stdout = []\<rparr>) = Some False"
  by code_simp

text \<open>
  Claim C6, amended. For an existing file whose content holds the function's marker
  literal (\<open>ios_sim_x86_64\<close> for the six \<open>BUILD\<close> functions, \<open>debug_sim_x86_64\<close>
  for \<open>patch_make_py\<close>, \<open>ios_x86_64\<close> in the genrule pass), with or without the
  dry-run flag, the function only reads the file and prints: the resulting world
  differs from the given one by the read event and the printed lines, so no backup
  is made and nothing is written. The seven single-file functions return \<open>True\<close>.
  The genrule loop body reports \<open>Already patched, skipping.\<close> and goes on with
  \<open>patched_count\<close> as it was, so the file is not counted: when every listed file
  that exists is already patched, the pass changes nothing and returns \<open>False\<close>.
\<close>

theorem already_patched_is_noop:
  assumes "files w p = Some content"
  shows "(contains ''ios_sim_x86_64'' content \<longrightarrow>
       patch_build_system_build clock p dry_run w =
         Inr (True, w\<lparr>events := events w @ [Read p],
                       stdout := stdout w @
                         [''\<newline>[1/8] Patching '' @ p, ''  Already patched, skipping.'']\<rparr>))
    \<and> (contains ''ios_sim_x86_64'' content \<longrightarrow>
       patch_webrtc_build clock p dry_run w =
         Inr (True, w\<lparr>events := events w @ [Read p],
                       stdout := stdout w @
                         [''\<newline>[2/8] Patching '' @ p, ''  Already patched, skipping.'']\<rparr>))
    \<and> (contains ''ios_sim_x86_64'' content \<longrightarrow>
       patch_libyuv_build clock p dry_run w =
         Inr (True, w\<lparr>events := events w @ [Read p],
                       stdout := stdout w @
                         [''\<newline>[3/8] Patching '' @ p, ''  Already patched, skipping.'']\<rparr>))
    \<and> (contains ''ios_sim_x86_64'' content \<longrightarrow>
       patch_openh264_build clock p dry_run w =
         Inr (True, w\<lparr>events := events w @ [Read p],
                       stdout := stdout w @
                         [''\<newline>[4/8] Patching '' @ p, ''  Already patched, skipping.'']\<rparr>))
    \<and> (contains ''ios_sim_x86_64'' content \<longrightarrow>
       patch_libsrtp_build clock p dry_run w =
         Inr (True, w\<lparr>events := events w @ [Read p],
                       stdout := stdout w @
                         [''\<newline>[5/8] Patching '' @ p, ''  Already patched, skipping.'']\<rparr>))
    \<and> (contains ''ios_sim_x86_64'' content \<longrightarrow>
       patch_crc32c_build clock p dry_run w =
         Inr (True, w\<lparr>events := events w @ [Read p],
                       stdout := stdout w @
                         [''\<newline>[6/8] Patching '' @ p, ''  Already patched, skipping.'']\<rparr>))
    \<and> (contains ''debug_sim_x86_64'' content \<longrightarrow>
       patch_make_py clock p dry_run w =
         Inr (True, w\<lparr>events := events w @ [Read p],
                       stdout := stdout w @
                         [''\<newline>[7/8] Patching '' @ p, ''  Already patched, skipping.'']\<rparr>))
    \<and> (contains ''ios_x86_64'' content \<longrightarrow>
       patch_genrule_file clock dry_run p (n, w) =
         Inr (n, w\<lparr>events := events w @ [Read p],
                    stdout := stdout w @ [''  '' @ p @ '': Already patched, skipping.'']\<rparr>))
    \<and> untouched w (w\<lparr>events := events w @ [Read p], stdout := out\<rparr>)
    \<and> ((\<forall>q\<in>set genrule_files. \<forall>c. files w q = Some c \<longrightarrow> contains ''ios_x86_64'' c) \<longrightarrow>
       (\<exists>w'. patch_genrule_build_files clock dry_run w = Inr (False, w') \<and> untouched w w'))"
  using assms patch_genrule_build_files_all_patched [of w clock dry_run]
  by (simp add: patch_build_system_build_skip patch_webrtc_build_skip patch_libyuv_build_skip
      patch_openh264_build_skip patch_libsrtp_build_skip patch_crc32c_build_skip
      patch_make_py_skip patch_genrule_file_skip untouched_def)

theorem already_patched_is_noop_witness:
  \<open>contains ''ios_sim_x86_64'' ''"//build-system:ios_sim_x86_64": [],''
   \<and> patch_libyuv_build (\<lambda>p. ''20240101_120000'') ''third-party/libyuv/BUILD'' False
        \<lparr>files = [''third-party/libyuv/BUILD'' \<mapsto> ''"//build-system:ios_sim_x86_64": [],''],
         events = [], stdout = []\<rparr> =
       Inr (True,
         \<lparr>files = [''third-party/libyuv/BUILD'' \<mapsto> ''"//build-system:ios_sim_x86_64": [],''],
          events = [Read ''third-party/libyuv/BUILD''],
          stdout = [''\<newline>[3/8] Patching third-party/libyuv/BUILD'',
                    ''  Already patched, skipping.'']\<rparr>)
   \<and> contains ''ios_x86_64'' ''elif [ "$(TARGET_CPU)" == "ios_x86_64" ]; then''
   \<and> patch_genrule_file (\<lambda>p. ''20240101_120000'') False ''third-party/webp/BUILD''
        (0, \<lparr>files = [''third-party/webp/BUILD'' \<mapsto>
                      ''elif [ "$(TARGET_CPU)" == "ios_x86_64" ]; then''],
             events = [], stdout = []\<rparr>) =
       Inr (0,
         \<lparr>files = [''third-party/webp/BUILD'' \<mapsto>
                      ''elif [ "$(TARGET_CPU)" == "ios_x86_64" ]; then''],
          events = [Read ''third-party/webp/BUILD''],
          stdout = [''  third-party/webp/BUILD: Already patched, skipping.'']\<rparr>)
   \<and> returned (patch_genrule_build_files (\<lambda>p. ''20240101_120000'') False
        \<lparr>files = [''third-party/webp/BUILD'' \<mapsto>
                      ''elif [ "$(TARGET_CPU)" == "ios_x86_64" ]; then''],
         events = [], stdout = []\<rparr>) = Some False\<close>
proof -
  let ?c = \<open>''"//build-system:ios_sim_x86_64": [],''\<close>
  let ?p = "''third-party/libyuv/BUILD''"
  let ?w = "\<lparr>files = [?p \<mapsto> ?c], events = [], stdout = []\<rparr>"
  let ?d = \<open>''elif [ "$(TARGET_CPU)" == "ios_x86_64" ]; then''\<close>
  let ?q = "''third-party/webp/BUILD''"
  let ?v = "\<lparr>files = [?q \<mapsto> ?d], events = [], stdout = []\<rparr>"
  have m1: "contains ''ios_sim_x86_64'' ?c" and m2: "contains ''ios_x86_64'' ?d"
    by code_simp+
  have f: "files ?w ?p = Some ?c" and g: "files ?v ?q = Some ?d"
    by simp_all
  have c1: "patch_libyuv_build (\<lambda>p. ''20240101_120000'') ?p False ?w =
      Inr (True, ?w\<lparr>events := events ?w @ [Read ?p],
                    stdout := stdout ?w @
                      [''\<newline>[3/8] Patching '' @ ?p, ''  Already patched, skipping.'']\<rparr>)"
    using already_patched_is_noop [OF f, of "\<lambda>p. ''20240101_120000''" False 0] m1 by blast
  have c2: "patch_genrule_file (\<lambda>p. ''20240101_120000'') False ?q (0, ?v) =
      Inr (0, ?v\<lparr>events := events ?v @ [Read ?q],
                 stdout := stdout ?v @ [''  '' @ ?q @ '': Already patched, skipping.'']\<rparr>)"
    using already_patched_is_noop [OF g, of "\<lambda>p. ''20240101_120000''" False 0] m2 by blast
  have allp: "\<forall>q\<in>set genrule_files. \<forall>c. files ?v q = Some c \<longrightarrow> contains ''ios_x86_64'' c"
    using m2 by (simp add: genrule_files_def)
  obtain v' where "patch_genrule_build_files (\<lambda>p. ''20240101_120000'') False ?v = Inr (False, v')"
    using already_patched_is_noop [OF g, of "\<lambda>p. ''20240101_120000''" False 0] allp by blast
  then have c3: "returned (patch_genrule_build_files (\<lambda>p. ''20240101_120000'') False ?v)
      = Some False"
    by (simp add: returned_def)
  show ?thesis
    using m1 m2 c1 c2 c3 by simp
qed

section \<open>Properties of the orchestrator\<close>

subsection \<open>What every step does\<close>








subsection \<open>A chain of steps\<close>

lemma and_step_Inr:
  "f p dry (w::world) = Inr (r, w') \<Longrightarrow> and_step f p dry (Inr (s, w)) = Inr (s \<and> r, w')"
  by (simp add: and_step_def)











subsection \<open>Missing files\<close>



section \<open>Patches only insert text\<close>

subsection \<open>Replacement and substitution keep the text they are applied to\<close>

lemma subseq_interleave: "subseq s (concat (map (\<lambda>c. c # new) s))"
  by (induction s) (simp_all add: list_emb_append2)

lemma subseq_replace:
  assumes "subseq old new"
  shows "subseq s (replace old new s)"
proof (induction s rule: length_induct)
  case (1 s)
  show ?case
  proof (cases "old = []")
    case True
    then show ?thesis
      by (subst replace.simps) (simp add: subseq_interleave list_emb_append2)
  next
    case False
    show ?thesis
    proof (cases s)
      case Nil
      then show ?thesis
        using False by (subst replace.simps) simp
    next
      case (Cons c cs)
      show ?thesis
      proof (cases "prefix old s")
        case True
        then obtain rest where rest: "s = old @ rest"
          by (auto simp: prefix_def)
        have d: "drop (length old) s = rest"
          using rest by simp
        have "length rest < length s"
          using rest False by simp
        then have "subseq rest (replace old new rest)"
          using "1.IH" by blast
        then have "subseq (old @ rest) (new @ replace old new rest)"
          using assms by (rule list_emb_append_mono [rotated])
        moreover have "replace old new s = new @ replace old new rest"
          using True False Cons d by (subst replace.simps) simp
        ultimately show ?thesis
          using rest by simp
      next
        case np: False
        have "subseq cs (replace old new cs)"
          using "1.IH" Cons by simp
        moreover have "replace old new s = c # replace old new cs"
          using np False Cons by (subst replace.simps) simp
        ultimately show ?thesis
          using Cons by simp
      qed
    qed
  qed
qed

lemma try_down_Some: "try_down f n = Some r \<Longrightarrow> \<exists>k\<le>n. f k = Some r"
  by (induction n) (auto split: option.splits intro: le_SucI)

lemma rx_match_prefix: "rx_match p s = Some gs \<Longrightarrow> prefix (concat gs) s"
proof (induction p s arbitrary: gs rule: rx_match.induct)
  case (1 s)
  then show ?case by simp
next
  case (2 c rs s)
  then show ?case by (auto split: list.splits if_splits)
next
  case (3 cls rs s)
  from "3.prems" obtain k
    where k: "map_option ((#) (take k s)) (rx_match rs (drop k s)) = Some gs"
    using try_down_Some [of "\<lambda>n. map_option ((#) (take n s)) (rx_match rs (drop n s))"]
    by fastforce
  then obtain gs' where gs': "rx_match rs (drop k s) = Some gs'" "gs = take k s # gs'"
    by auto
  have "prefix (concat gs') (drop k s)"
    using "3.IH" gs'(1) by blast
  then show ?case
    unfolding gs'(2) by (metis append_take_drop_id concat.simps(2) same_prefix_prefix)
qed

lemma subseq_re_sub:
  assumes "\<And>gs. subseq (concat gs) (repl gs)"
  shows "subseq s (re_sub p repl s)"
proof (induction s rule: length_induct)
  case (1 s)
  have tail: "subseq s (case s of [] \<Rightarrow> [] | c # t \<Rightarrow> c # re_sub p repl t)"
  proof (cases s)
    case Nil
    then show ?thesis by simp
  next
    case (Cons c t)
    then have "subseq t (re_sub p repl t)"
      using "1.IH" by simp
    then show ?thesis
      using Cons by simp
  qed
  show ?case
  proof (cases "rx_match p s")
    case None
    then show ?thesis
      using tail by (subst re_sub.simps) simp
  next
    case (Some gs)
    show ?thesis
    proof (cases "concat gs = []")
      case True
      then show ?thesis
        using Some tail by (subst re_sub.simps) (simp add: list_emb_append2)
    next
      case False
      obtain rest where rest: "s = concat gs @ rest"
        using rx_match_prefix [OF Some] by (auto simp: prefix_def)
      have d: "drop (length (concat gs)) s = rest"
        using rest by simp
      have "length rest < length s"
        using rest False by simp
      then have "subseq rest (re_sub p repl rest)"
        using "1.IH" by blast
      then have "subseq (concat gs @ rest) (repl gs @ re_sub p repl rest)"
        using assms [of gs] by (rule list_emb_append_mono [rotated])
      moreover have "re_sub p repl s = repl gs @ re_sub p repl rest"
        using Some False d by (subst re_sub.simps) (simp del: concat_eq_Nil_conv)
      ultimately show ?thesis
        using rest by simp
    qed
  qed
qed

lemma subseq_insert_between: "subseq (concat gs) (insert_between n ins gs)"
proof -
  have "concat gs = concat (take n gs) @ concat (drop n gs)"
    by (metis append_take_drop_id concat_append)
  moreover have "subseq (concat (take n gs) @ concat (drop n gs))
      (concat (take n gs) @ ins @ concat (drop n gs))"
    by (intro list_emb_append_mono subseq_order.order_refl list_emb_append2)
  ultimately show ?thesis
    by (simp add: insert_between_def)
qed

lemma subseq_sub_insert: "subseq s (sub_insert g1 g2 ins s)"
  unfolding sub_insert_def by (rule subseq_re_sub) (rule subseq_insert_between)

subsection \<open>Lines and the literals of the script\<close>

lemma split_on_not_Nil: "split_on c s \<noteq> []"
  by (induction s) (auto split: list.splits)

lemma join_with_Cons_head: "join_with c ((x # l) # ls) = x # join_with c (l # ls)"
  by (cases ls) simp_all

lemma join_with_Nil_head: "ls \<noteq> [] \<Longrightarrow> join_with c ([] # ls) = c # join_with c ls"
  by (cases ls) simp_all

lemma join_split: "join_with c (split_on c s) = s"
proof (induction s)
  case Nil
  show ?case by simp
next
  case (Cons x xs)
  show ?case
  proof (cases "x = c")
    case True
    then show ?thesis
      using Cons by (simp add: join_with_Nil_head split_on_not_Nil)
  next
    case False
    obtain l ls where sp: "split_on c xs = l # ls"
      using split_on_not_Nil [of c xs] by (cases "split_on c xs") auto
    show ?thesis
      using False Cons sp by (simp add: join_with_Cons_head)
  qed
qed

lemma join_with_concat:
  "join_with c (x # r) = x @ concat (map ((#) c) r)"
  by (induction r arbitrary: x) simp_all

lemma subseq_concat_map:
  "subseq r r' \<Longrightarrow> subseq (concat (map f r)) (concat (map f r'))"
  by (induction rule: list_emb.induct) (simp_all add: list_emb_append2 list_emb_append_mono)

lemma subseq_join: "subseq xs ys \<Longrightarrow> subseq (join_with c xs) (join_with c ys)"
proof (cases xs)
  case Nil
  then show ?thesis by simp
next
  case (Cons x r)
  assume emb: "subseq xs ys"
  then obtain y r' where ys: "ys = y # r'"
    using Cons by (cases ys) auto
  show ?thesis
  proof (cases "x = y")
    case True
    then have "subseq r r'"
      using emb Cons ys by simp
    then have "subseq (concat (map ((#) c) r)) (concat (map ((#) c) r'))"
      by (rule subseq_concat_map)
    then show ?thesis
      unfolding Cons ys join_with_concat True
      by (intro list_emb_append_mono subseq_order.order_refl)
  next
    case False
    then have "subseq (x # r) r'"
      using emb Cons ys by simp
    then have "subseq (concat (map ((#) c) (x # r))) (concat (map ((#) c) r'))"
      by (rule subseq_concat_map)
    then have "subseq (x @ concat (map ((#) c) r)) (concat (map ((#) c) r'))"
      by (simp add: subseq_Cons')
    then show ?thesis
      unfolding Cons ys join_with_concat by (rule list_emb_append2)
  qed
qed

lemma subseq_patch_genrule_content: "subseq content (fst (patch_genrule_content content))"
proof -
  have "subseq (join_with CHR 0x0A (split_on CHR 0x0A content))
      (join_with CHR 0x0A (fst (scan_lines (split_on CHR 0x0A content) [] False)))"
    by (rule subseq_join [OF scan_lines_subseq])
  then have "subseq content
      (join_with CHR 0x0A (fst (scan_lines (split_on CHR 0x0A content) [] False)))"
    by (simp add: join_split)
  moreover obtain nl m where sc: "scan_lines (split_on CHR 0x0A content) [] False = (nl, m)"
    by (cases "scan_lines (split_on CHR 0x0A content) [] False") auto
  ultimately show ?thesis
    by (simp add: patch_genrule_content_def sc)
qed

lemma old_new_arch_specific_sources: "subseq old_arch_specific_sources new_arch_specific_sources"
  by code_simp

lemma old_new_arch_specific_cflags: "subseq old_arch_specific_cflags new_arch_specific_cflags"
  by code_simp

lemma old_release_new_configurations: "subseq old_release_arm64 new_configurations"
  by code_simp

lemma old_new_choices: "subseq old_choices new_choices"
  by code_simp

subsection \<open>The files after a patch\<close>

lemma patch_webrtc_build_keeps:
  assumes "files w p = Some content"
  shows "\<exists>w' content'. patch_webrtc_build clock p dry_run w = Inr (True, w')
     \<and> files w' p = Some content' \<and> subseq content content'"
proof (cases "contains ''ios_sim_x86_64'' content")
  case True
  then show ?thesis
    using assms by (simp add: patch_webrtc_build_skip)
next
  case False
  then show ?thesis
    using assms
    by (cases dry_run)
      (simp_all add: patch_webrtc_build_dry_run patch_webrtc_build_write subseq_replace subseq_sub_insert
        old_new_arch_specific_sources old_new_arch_specific_cflags
        old_release_new_configurations old_new_choices
        subseq_order.order_trans [OF subseq_replace subseq_replace]
        subseq_order.order_trans [OF subseq_sub_insert
          subseq_order.order_trans [OF subseq_sub_insert subseq_sub_insert]])
qed

lemma patch_libyuv_build_keeps:
  assumes "files w p = Some content"
  shows "\<exists>w' content'. patch_libyuv_build clock p dry_run w = Inr (True, w')
     \<and> files w' p = Some content' \<and> subseq content content'"
proof (cases "contains ''ios_sim_x86_64'' content")
  case True
  then show ?thesis
    using assms by (simp add: patch_libyuv_build_skip)
next
  case False
  then show ?thesis
    using assms
    by (cases dry_run)
      (simp_all add: patch_libyuv_build_dry_run patch_libyuv_build_write subseq_replace subseq_sub_insert
        old_new_arch_specific_sources old_new_arch_specific_cflags
        old_release_new_configurations old_new_choices
        subseq_order.order_trans [OF subseq_replace subseq_replace]
        subseq_order.order_trans [OF subseq_sub_insert
          subseq_order.order_trans [OF subseq_sub_insert subseq_sub_insert]])
qed

lemma patch_openh264_build_keeps:
  assumes "files w p = Some content"
  shows "\<exists>w' content'. patch_openh264_build clock p dry_run w = Inr (True, w')
     \<and> files w' p = Some content' \<and> subseq content content'"
proof (cases "contains ''ios_sim_x86_64'' content")
  case True
  then show ?thesis
    using assms by (simp add: patch_openh264_build_skip)
next
  case False
  then show ?thesis
    using assms
    by (cases dry_run)
      (simp_all add: patch_openh264_build_dry_run patch_openh264_build_write subseq_replace subseq_sub_insert
        old_new_arch_specific_sources old_new_arch_specific_cflags
        old_release_new_configurations old_new_choices
        subseq_order.order_trans [OF subseq_replace subseq_replace]
        subseq_order.order_trans [OF subseq_sub_insert
          subseq_order.order_trans [OF subseq_sub_insert subseq_sub_insert]])
qed

lemma patch_libsrtp_build_keeps:
  assumes "files w p = Some content"
  shows "\<exists>w' content'. patch_libsrtp_build clock p dry_run w = Inr (True, w')
     \<and> files w' p = Some content' \<and> subseq content content'"
proof (cases "contains ''ios_sim_x86_64'' content")
  case True
  then show ?thesis
    using assms by (simp add: patch_libsrtp_build_skip)
next
  case False
  then show ?thesis
    using assms
    by (cases dry_run)
      (simp_all add: patch_libsrtp_build_dry_run patch_libsrtp_build_write subseq_replace subseq_sub_insert
        old_new_arch_specific_sources old_new_arch_specific_cflags
        old_release_new_configurations old_new_choices
        subseq_order.order_trans [OF subseq_replace subseq_replace]
        subseq_order.order_trans [OF subseq_sub_insert
          subseq_order.order_trans [OF subseq_sub_insert subseq_sub_insert]])
qed

lemma patch_crc32c_build_keeps:
  assumes "files w p = Some content"
  shows "\<exists>w' content'. patch_crc32c_build clock p dry_run w = Inr (True, w')
     \<and> files w' p = Some content' \<and> subseq content content'"
proof (cases "contains ''ios_sim_x86_64'' content")
  case True
  then show ?thesis
    using assms by (simp add: patch_crc32c_build_skip)
next
  case False
  then show ?thesis
    using assms
    by (cases dry_run)
      (simp_all add: patch_crc32c_build_dry_run patch_crc32c_build_write subseq_replace subseq_sub_insert
        old_new_arch_specific_sources old_new_arch_specific_cflags
        old_release_new_configurations old_new_choices
        subseq_order.order_trans [OF subseq_replace subseq_replace]
        subseq_order.order_trans [OF subseq_sub_insert
          subseq_order.order_trans [OF subseq_sub_insert subseq_sub_insert]])
qed

lemma patch_make_py_keeps:
  assumes "files w p = Some content"
  shows "\<exists>w' content'. patch_make_py clock p dry_run w = Inr (True, w')
     \<and> files w' p = Some content' \<and> subseq content content'"
proof (cases "contains ''debug_sim_x86_64'' content")
  case True
  then show ?thesis
    using assms by (simp add: patch_make_py_skip)
next
  case False
  then show ?thesis
    using assms
    by (cases dry_run)
      (simp_all add: patch_make_py_dry_run patch_make_py_write subseq_replace subseq_sub_insert
        old_new_arch_specific_sources old_new_arch_specific_cflags
        old_release_new_configurations old_new_choices
        subseq_order.order_trans [OF subseq_replace subseq_replace]
        subseq_order.order_trans [OF subseq_sub_insert
          subseq_order.order_trans [OF subseq_sub_insert subseq_sub_insert]])
qed

lemma patch_genrule_file_keeps:
  assumes "files w p = Some content"
  shows "\<exists>n' w' content'. patch_genrule_file clock dry_run p (n, w) = Inr (n', w')
     \<and> files w' p = Some content' \<and> subseq content content'"
proof (cases "contains ''ios_x86_64'' content")
  case True
  then show ?thesis
    using assms by (simp add: patch_genrule_file_skip)
next
  case False
  then show ?thesis
    using assms
    by (cases dry_run)
      (simp_all add: patch_genrule_file_dry_run patch_genrule_file_write
        subseq_patch_genrule_content)
qed

text \<open>
  Claim C3, as stated, fails for \<open>build-system/BUILD\<close>: the first step does not
  insert into the file, it writes a fixed text in its place. A file that holds only a
  comment is gone from the output but for its backup copy.
\<close>

theorem build_system_build_is_overwritten:
  "patch_build_system_build (\<lambda>p. ''20240101_120000'') ''build-system/BUILD'' False
      \<lparr>files = [''build-system/BUILD'' \<mapsto> ''# my rules''], events = [], stdout = []\<rparr> =
     Inr (True,
       \<lparr>files = [''build-system/BUILD'' \<mapsto> new_config_settings,
                  ''build-system/BUILD.backup.20240101_120000'' \<mapsto> ''# my rules''],
        events = [Read ''build-system/BUILD'',
                  Copy ''build-system/BUILD'' ''build-system/BUILD.backup.20240101_120000'',
                  Write ''build-system/BUILD'' new_config_settings],
        stdout = [''\<newline>[1/8] Patching build-system/BUILD'',
                  ''  Backup created: build-system/BUILD.backup.20240101_120000'',
                  ''  Successfully added ios_sim_x86_64 and ios_x86_64 config settings'']\<rparr>)
   \<and> \<not> subseq ''# my rules'' new_config_settings"
proof -
  let ?p = "''build-system/BUILD''"
  let ?w = "\<lparr>files = [?p \<mapsto> ''# my rules''], events = [], stdout = []\<rparr>"
  have f: "files ?w ?p = Some ''# my rules''"
    by simp
  have n: "\<not> contains ''ios_sim_x86_64'' ''# my rules''"
    by code_simp
  have s: "\<not> subseq ''# my rules'' new_config_settings"
    by code_simp
  show ?thesis
    unfolding patch_build_system_build_write [OF f n] using s by (simp add: fun_upd_twist)
qed

text \<open>
  Claim C3, amended. Each of the other seven patch operations (the six single-file
  functions after the first, and the genrule loop body) leaves its file with a content
  of which the content read is a subsequence: text is only inserted. This holds
  whether the file is skipped, previewed or written. The first step,
  \<open>patch_build_system_build\<close>, when it writes, replaces the whole content of its
  file with \<open>new_config_settings\<close>.
\<close>

theorem patches_only_insert:
  assumes "files w p = Some content"
  shows "(\<forall>f\<in>set
       [patch_webrtc_build clock,
        patch_libyuv_build clock,
        patch_openh264_build clock,
        patch_libsrtp_build clock,
        patch_crc32c_build clock,
        patch_make_py clock].
      \<exists>w' content'. f p dry_run w = Inr (True, w')
        \<and> files w' p = Some content' \<and> subseq content content')
   \<and> (\<exists>n' w' content'. patch_genrule_file clock dry_run p (n, w) = Inr (n', w')
        \<and> files w' p = Some content' \<and> subseq content content')
   \<and> (\<not> contains ''ios_sim_x86_64'' content \<longrightarrow>
        (\<exists>w'. patch_build_system_build clock p False w = Inr (True, w')
           \<and> files w' p = Some new_config_settings))"
  using patch_webrtc_build_keeps [OF assms, of clock dry_run]
    patch_libyuv_build_keeps [OF assms, of clock dry_run]
    patch_openh264_build_keeps [OF assms, of clock dry_run]
    patch_libsrtp_build_keeps [OF assms, of clock dry_run]
    patch_crc32c_build_keeps [OF assms, of clock dry_run]
    patch_make_py_keeps [OF assms, of clock dry_run]
    patch_genrule_file_keeps [OF assms, of clock dry_run n]
    patch_build_system_build_write [OF assms, of clock]
  by simp

theorem patches_only_insert_witness:
  \<open>sub_insert libsrtp_pattern_group1 libsrtp_pattern_group2 libsrtp_inserted
      ''"//build-system:ios_sim_arm64": common_flags + arm64_specific_flags,\<newline>})'' =
     concat
       [''"//build-system:ios_sim_arm64": common_flags + arm64_specific_flags,\<newline>'',
        ''    "//build-system:ios_sim_x86_64": common_flags,\<newline>'',
        ''    "//build-system:ios_x86_64": common_flags,\<newline>'',
        ''    "//conditions:default": common_flags,\<newline>'',
        ''\<newline>})'']
   \<and> (\<exists>w' content'.
        patch_libsrtp_build (\<lambda>p. ''20240101_120000'') ''third-party/webrtc/libsrtp/BUILD'' False
          \<lparr>files = [''third-party/webrtc/libsrtp/BUILD'' \<mapsto>
             ''"//build-system:ios_sim_arm64": common_flags + arm64_specific_flags,\<newline>})''],
           events = [], stdout = []\<rparr> = Inr (True, w')
        \<and> files w' ''third-party/webrtc/libsrtp/BUILD'' = Some content'
        \<and> subseq ''"//build-system:ios_sim_arm64": common_flags + arm64_specific_flags,\<newline>})''
             content')
   \<and> (\<exists>w'. patch_build_system_build (\<lambda>p. ''20240101_120000'')
          ''third-party/webrtc/libsrtp/BUILD'' False
          \<lparr>files = [''third-party/webrtc/libsrtp/BUILD'' \<mapsto>
             ''"//build-system:ios_sim_arm64": common_flags + arm64_specific_flags,\<newline>})''],
           events = [], stdout = []\<rparr> = Inr (True, w')
        \<and> files w' ''third-party/webrtc/libsrtp/BUILD'' = Some new_config_settings)\<close>
proof -
  let ?c = \<open>''"//build-system:ios_sim_arm64": common_flags + arm64_specific_flags,\<newline>})''\<close>
  let ?p = "''third-party/webrtc/libsrtp/BUILD''"
  let ?w = "\<lparr>files = [?p \<mapsto> ?c], events = [], stdout = []\<rparr>"
  let ?clock = "\<lambda>p :: string. ''20240101_120000''"
  have ev: \<open>sub_insert libsrtp_pattern_group1 libsrtp_pattern_group2 libsrtp_inserted ?c =
     concat
       [''"//build-system:ios_sim_arm64": common_flags + arm64_specific_flags,\<newline>'',
        ''    "//build-system:ios_sim_x86_64": common_flags,\<newline>'',
        ''    "//build-system:ios_x86_64": common_flags,\<newline>'',
        ''    "//conditions:default": common_flags,\<newline>'',
        ''\<newline>})'']\<close>
    by code_simp
  have f: "files ?w ?p = Some ?c"
    by simp
  have n: "\<not> contains ''ios_sim_x86_64'' ?c"
    by code_simp
  note inst = patches_only_insert [OF f, of ?clock False 0]
  have mem: "patch_libsrtp_build ?clock \<in> set
       [patch_webrtc_build ?clock, patch_libyuv_build ?clock, patch_openh264_build ?clock,
        patch_libsrtp_build ?clock, patch_crc32c_build ?clock, patch_make_py ?clock]"
    by simp
  have a: "\<exists>w' content'. patch_libsrtp_build ?clock ?p False ?w = Inr (True, w')
      \<and> files w' ?p = Some content' \<and> subseq ?c content'"
    using inst [THEN conjunct1, rule_format, OF mem] .
  have b: "\<exists>w'. patch_build_system_build ?clock ?p False ?w = Inr (True, w')
      \<and> files w' ?p = Some new_config_settings"
    using inst [THEN conjunct2, THEN conjunct2, rule_format, OF n] .
  show ?thesis
    using ev a b by blast
qed

end
